theory Spec2Isabelle
  imports Main "HOL-Library.Word"
begin

unbundle bit_operations_syntax

section \<open>The data model of jc.h\<close>

text \<open>
  jc is a constant-memory JSON tokenizer in one C89 header. The embedding below follows
  the header function by function.

  \<^item> \<open>jc_token_type\<close> is a C enum whose enumerators are single bits; the engine also
    stores unions of them in a \<open>size_t\<close> (the expected-token-set) and returns such unions
    from functions typed \<open>jc_token_type\<close>. Both are modelled by one machine word type.
    All enumerators are small and positive, so the conversion between the enum and
    \<open>size_t\<close> changes no value.
  \<^item> Offsets (\<open>size_t\<close>) are natural numbers: every offset the engine forms is at most
    two past an offset it has read successfully, so no wrap-around can occur on a buffer
    that fits into memory.
  \<^item> \<open>nesting_level\<close> is a C \<open>int\<close>; it is only incremented below the capacity and only
    decremented above \<open>-1\<close>, so it is an unbounded integer here.
  \<^item> The \<open>source\<close> pointer is modelled by the bytes that are addressable from it: the
    characters of the string, its terminating null, and whatever follows it in the same
    buffer. Reading at an offset outside these bytes is undefined behaviour in C; every
    function that reads returns \<open>None\<close> in that case.
\<close>

type_synonym jc_token_type = "64 word"

definition JC_TOKEN_TYPE_NUMBER :: jc_token_type where "JC_TOKEN_TYPE_NUMBER = 0x001"
definition JC_TOKEN_TYPE_STRING :: jc_token_type where "JC_TOKEN_TYPE_STRING = 0x002"
definition JC_TOKEN_TYPE_TRUE :: jc_token_type where "JC_TOKEN_TYPE_TRUE = 0x004"
definition JC_TOKEN_TYPE_FALSE :: jc_token_type where "JC_TOKEN_TYPE_FALSE = 0x008"
definition JC_TOKEN_TYPE_NULL :: jc_token_type where "JC_TOKEN_TYPE_NULL = 0x010"
definition JC_TOKEN_TYPE_ARRAY_START :: jc_token_type where "JC_TOKEN_TYPE_ARRAY_START = 0x020"
definition JC_TOKEN_TYPE_ARRAY_END :: jc_token_type where "JC_TOKEN_TYPE_ARRAY_END = 0x040"
definition JC_TOKEN_TYPE_OBJECT_START :: jc_token_type where "JC_TOKEN_TYPE_OBJECT_START = 0x080"
definition JC_TOKEN_TYPE_OBJECT_END :: jc_token_type where "JC_TOKEN_TYPE_OBJECT_END = 0x100"
definition JC_TOKEN_TYPE_FIELD_NAME :: jc_token_type where "JC_TOKEN_TYPE_FIELD_NAME = 0x200"
definition JC_TOKEN_TYPE_COMMA :: jc_token_type where "JC_TOKEN_TYPE_COMMA = 0x400"
definition JC_TOKEN_TYPE_COLON :: jc_token_type where "JC_TOKEN_TYPE_COLON = 0x800"

record jc_token =
  tok_type :: jc_token_type
  tok_start :: nat
  tok_end :: nat

datatype jc_result =
    JC_RESULT_OK
  | JC_RESULT_EOF
  | JC_RESULT_ERR_CANT_INIT
  | JC_RESULT_ERR_UNEXPECTED_TOKEN
  | JC_RESULT_ERR_UNEXPECTED_EOF
  | JC_RESULT_ERR_GARBAGE
  | JC_RESULT_ERR_MAX_NESTING_REACHED
  | JC_RESULT_ERR_CORRUPTED_STATE

definition JC_MAX_NESTING_LEVEL :: int where "JC_MAX_NESTING_LEVEL = 8"

definition JC_NO_TOKENS_EXPECTED :: jc_token_type where "JC_NO_TOKENS_EXPECTED = 0"
definition JC_NO_NESTING_LEVEL :: int where "JC_NO_NESTING_LEVEL = -1"

definition JC_TOKEN_TYPE_VALUE :: jc_token_type where
  "JC_TOKEN_TYPE_VALUE =
     (JC_TOKEN_TYPE_NUMBER
      OR JC_TOKEN_TYPE_STRING
      OR JC_TOKEN_TYPE_TRUE
      OR JC_TOKEN_TYPE_FALSE
      OR JC_TOKEN_TYPE_NULL
      OR JC_TOKEN_TYPE_ARRAY_START
      OR JC_TOKEN_TYPE_OBJECT_START)"

definition JC_CHAR_NULL :: char where "JC_CHAR_NULL = CHR 0x00"
definition JC_CHAR_OBJECT_START :: char where "JC_CHAR_OBJECT_START = CHR ''{''"
definition JC_CHAR_OBJECT_END :: char where "JC_CHAR_OBJECT_END = CHR ''}''"
definition JC_CHAR_ARRAY_START :: char where "JC_CHAR_ARRAY_START = CHR ''[''"
definition JC_CHAR_ARRAY_END :: char where "JC_CHAR_ARRAY_END = CHR '']''"
definition JC_CHAR_COMMA :: char where "JC_CHAR_COMMA = CHR '',''"
definition JC_CHAR_COLON :: char where "JC_CHAR_COLON = CHR '':''"
definition JC_CHAR_DQUOTE :: char where "JC_CHAR_DQUOTE = CHR 0x22"
definition JC_CHAR_BACKSLASH :: char where "JC_CHAR_BACKSLASH = CHR 0x5C"

definition JC_LIT_TRUE :: string where "JC_LIT_TRUE = ''true''"
definition JC_LIT_FALSE :: string where "JC_LIT_FALSE = ''false''"
definition JC_LIT_NULL :: string where "JC_LIT_NULL = ''null''"

definition JC_VALID_CHARS_IN_NUMBER :: string where
  "JC_VALID_CHARS_IN_NUMBER = ''0123456789-+eE.''"

datatype jc_nesting_type = JC_NESTING_TYPE_OBJECT | JC_NESTING_TYPE_ARRAY

record jc_state =
  source :: string
  source_pos :: nat
  nesting_stack :: "jc_nesting_type list"
  nesting_level :: int
  expected_token_types :: "64 word"

section \<open>The C library functions the header calls\<close>

text \<open>
  \<open>isspace\<close> in the "C" locale: space, and the five control characters from horizontal
  tab to carriage return. No byte above 0x7F is whitespace there (the header supports
  ASCII sources only).
\<close>

definition isspace :: "char \<Rightarrow> bool" where
  "isspace c = (c = CHR 0x20 \<or> c = CHR 0x09 \<or> c = CHR 0x0A \<or> c = CHR 0x0B
                \<or> c = CHR 0x0C \<or> c = CHR 0x0D)"

text \<open>
  \<open>strchr s c \<noteq> NULL\<close>, for a string literal \<open>s\<close>. The C standard counts the terminating
  null as part of the string, so the search for the null character always succeeds.
\<close>

fun strchr :: "string \<Rightarrow> char \<Rightarrow> bool" where
  "strchr [] c = (c = CHR 0x00)"
| "strchr (x # xs) c = (x = c \<or> strchr xs c)"

text \<open>
  \<open>strncmp (mem + i) lit (strlen lit) = 0\<close>: the characters are compared one by one, and
  the comparison stops at the first difference, at a null, or once the literal is
  exhausted.
\<close>

fun strncmp_eq :: "string \<Rightarrow> nat \<Rightarrow> string \<Rightarrow> bool option" where
  "strncmp_eq mem i [] = Some True"
| "strncmp_eq mem i (l # ls) =
     (if i < length mem then
        (if mem ! i = l then (if l = CHR 0x00 then Some True else strncmp_eq mem (i + 1) ls)
         else Some False)
      else None)"

section \<open>The functions of jc.h\<close>

text \<open>Reading \<open>state->source[i]\<close>; \<open>None\<close> outside the buffer.\<close>

definition source_at :: "jc_state \<Rightarrow> nat \<Rightarrow> char option" where
  "source_at state i = (if i < length (source state) then Some (source state ! i) else None)"

text \<open>Reading \<open>state->nesting_stack[i]\<close>; \<open>None\<close> outside the array.\<close>

definition nesting_stack_at :: "jc_state \<Rightarrow> int \<Rightarrow> jc_nesting_type option" where
  "nesting_stack_at state i =
     (if 0 \<le> i \<and> nat i < length (nesting_stack state)
      then Some (nesting_stack state ! nat i) else None)"

text \<open>
  \<open>jc_init\<close>: both pointers may be null (\<open>None\<close>). The state passed in is the caller's
  struct as it was before the call; the result is the struct after it.
\<close>

definition jc_init :: "jc_state option \<Rightarrow> string option \<Rightarrow> jc_result \<times> jc_state option" where
  "jc_init state src =
     (case state of
        None \<Rightarrow> (JC_RESULT_ERR_CANT_INIT, state)
      | Some st \<Rightarrow>
          (case src of
             None \<Rightarrow> (JC_RESULT_ERR_CANT_INIT, state)
           | Some s \<Rightarrow>
               (JC_RESULT_OK,
                Some (st\<lparr>source := s, source_pos := 0,
                         nesting_level := JC_NO_NESTING_LEVEL,
                         expected_token_types := JC_TOKEN_TYPE_VALUE\<rparr>))))"

text \<open>\<open>jc_current_source\<close> is the pointer \<open>source + source_pos\<close>, here the offset.\<close>

definition jc_current_source :: "jc_state \<Rightarrow> nat" where
  "jc_current_source state = source_pos state"

text \<open>The token slot is \<open>None\<close> for a null pointer, otherwise its content.\<close>

definition jc_make_token ::
  "jc_state \<Rightarrow> jc_token option \<Rightarrow> jc_token_type \<Rightarrow> nat \<Rightarrow> jc_token option" where
  "jc_make_token state token type len =
     (case token of
        None \<Rightarrow> None
      | Some t \<Rightarrow> Some (t\<lparr>tok_type := type, tok_start := source_pos state,
                          tok_end := source_pos state + len\<rparr>))"

definition jc_advance_source_pos :: "jc_state \<Rightarrow> nat \<Rightarrow> jc_state" where
  "jc_advance_source_pos state num_of_chars =
     state\<lparr>source_pos := source_pos state + num_of_chars\<rparr>"

definition jc_expect_next :: "jc_state \<Rightarrow> jc_token_type \<Rightarrow> jc_state" where
  "jc_expect_next state expected = state\<lparr>expected_token_types := expected\<rparr>"

definition jc_is_expected :: "jc_state \<Rightarrow> jc_token_type \<Rightarrow> bool" where
  "jc_is_expected state type =
     (if type = JC_NO_TOKENS_EXPECTED then expected_token_types state = type
      else (expected_token_types state AND type) > 0)"

function jc_skip_whitespace :: "jc_state \<Rightarrow> jc_state option" where
  "jc_skip_whitespace state =
     (if source_pos state < length (source state) then
        (if isspace (source state ! source_pos state)
         then jc_skip_whitespace (state\<lparr>source_pos := source_pos state + 1\<rparr>)
         else Some state)
      else None)"
  by pat_completeness auto
termination
  by (relation "measure (\<lambda>state. length (source state) - source_pos state)") auto

declare jc_skip_whitespace.simps [simp del]

text \<open>
  \<open>jc_nest\<close> writes \<open>nesting_stack[nesting_level + 1]\<close>; the guard keeps the index below
  the capacity, and nothing keeps it from being negative.
\<close>

definition jc_nest :: "jc_state \<Rightarrow> jc_nesting_type \<Rightarrow> (jc_result \<times> jc_state) option" where
  "jc_nest state type =
     (if nesting_level state \<ge> JC_MAX_NESTING_LEVEL - 1
      then Some (JC_RESULT_ERR_MAX_NESTING_REACHED, state)
      else
        (let lvl = nesting_level state + 1 in
         if 0 \<le> lvl \<and> nat lvl < length (nesting_stack state)
         then Some (JC_RESULT_OK,
                    state\<lparr>nesting_level := lvl,
                          nesting_stack := (nesting_stack state)[nat lvl := type]\<rparr>)
         else None))"

definition jc_unnest :: "jc_state \<Rightarrow> jc_result \<times> jc_state" where
  "jc_unnest state =
     (if nesting_level state \<le> JC_NO_NESTING_LEVEL
      then (JC_RESULT_ERR_CORRUPTED_STATE, state)
      else (JC_RESULT_OK, state\<lparr>nesting_level := nesting_level state - 1\<rparr>))"

definition jc_get_end_token_type_of_current_nesting :: "jc_state \<Rightarrow> jc_token_type option" where
  "jc_get_end_token_type_of_current_nesting state =
     (if JC_NO_NESTING_LEVEL < nesting_level state
         \<and> nesting_level state < JC_MAX_NESTING_LEVEL
      then
        (case nesting_stack_at state (nesting_level state) of
           None \<Rightarrow> None
         | Some t \<Rightarrow>
             (if t = JC_NESTING_TYPE_OBJECT
              then Some (JC_TOKEN_TYPE_COMMA OR JC_TOKEN_TYPE_OBJECT_END)
              else Some (JC_TOKEN_TYPE_COMMA OR JC_TOKEN_TYPE_ARRAY_END)))
      else Some JC_NO_TOKENS_EXPECTED)"

definition jc_get_token_type_after_comma_of_current_nesting ::
  "jc_state \<Rightarrow> jc_token_type option" where
  "jc_get_token_type_after_comma_of_current_nesting state =
     (if JC_NO_NESTING_LEVEL < nesting_level state
         \<and> nesting_level state < JC_MAX_NESTING_LEVEL
      then
        (case nesting_stack_at state (nesting_level state) of
           None \<Rightarrow> None
         | Some t \<Rightarrow>
             (if t = JC_NESTING_TYPE_OBJECT
              then Some JC_TOKEN_TYPE_FIELD_NAME
              else Some JC_TOKEN_TYPE_VALUE))
      else Some JC_NO_TOKENS_EXPECTED)"

text \<open>
  \<open>jc_search_dquote\<close> walks a pointer \<open>c\<close> through the buffer, here an offset. The
  result is \<open>None\<close> for a read outside the buffer, \<open>Some None\<close> for the null pointer and
  \<open>Some (Some j)\<close> for a pointer to offset \<open>j\<close>. The second read, of \<open>*(c + 1)\<close>, happens
  only after a backslash, as the short-circuit conjunction of the source has it.
\<close>

function jc_search_dquote :: "string \<Rightarrow> nat \<Rightarrow> nat option option" where
  "jc_search_dquote mem c =
     (if c < length mem then
        (if mem ! c = JC_CHAR_DQUOTE then Some (Some c)
         else if mem ! c = JC_CHAR_NULL then Some None
         else if mem ! c = JC_CHAR_BACKSLASH then
           (if c + 1 < length mem then
              (if mem ! (c + 1) \<noteq> JC_CHAR_NULL
               then jc_search_dquote mem (c + 2)
               else jc_search_dquote mem (c + 1))
            else None)
         else jc_search_dquote mem (c + 1))
      else None)"
  by pat_completeness auto
termination
  by (relation "measure (\<lambda>(mem, c). length mem - c)") auto

declare jc_search_dquote.simps [simp del]

definition jc_parse_string_or_field_name ::
  "jc_state \<Rightarrow> jc_token option \<Rightarrow> (jc_result \<times> jc_state \<times> jc_token option) option" where
  "jc_parse_string_or_field_name state token =
     (case jc_search_dquote (source state) (jc_current_source state + 1) of
        None \<Rightarrow> None
      | Some None \<Rightarrow> Some (JC_RESULT_ERR_UNEXPECTED_EOF, state, token)
      | Some (Some end_dquote_ptr) \<Rightarrow>
          (let token_len = end_dquote_ptr - jc_current_source state - 1;
               token_type = (if jc_is_expected state JC_TOKEN_TYPE_FIELD_NAME
                             then JC_TOKEN_TYPE_FIELD_NAME else JC_TOKEN_TYPE_STRING);
               st1 = jc_advance_source_pos state 1;
               token' = jc_make_token st1 token token_type token_len;
               st2 = jc_advance_source_pos st1 (token_len + 1)
           in if token_type = JC_TOKEN_TYPE_FIELD_NAME
              then Some (JC_RESULT_OK, jc_expect_next st2 JC_TOKEN_TYPE_COLON, token')
              else
                (case jc_get_end_token_type_of_current_nesting st2 of
                   None \<Rightarrow> None
                 | Some e \<Rightarrow> Some (JC_RESULT_OK, jc_expect_next st2 e, token'))))"

text \<open>The loop of \<open>jc_parse_number\<close>, which counts \<open>token_len\<close> up.\<close>

function jc_parse_number_len :: "string \<Rightarrow> nat \<Rightarrow> nat \<Rightarrow> nat option" where
  "jc_parse_number_len mem cur token_len =
     (if cur + token_len < length mem then
        (if strchr JC_VALID_CHARS_IN_NUMBER (mem ! (cur + token_len))
         then jc_parse_number_len mem cur (token_len + 1)
         else Some token_len)
      else None)"
  by pat_completeness auto
termination
  by (relation "measure (\<lambda>(mem, cur, token_len). length mem - (cur + token_len))") auto

declare jc_parse_number_len.simps [simp del]

definition jc_parse_number ::
  "jc_state \<Rightarrow> jc_token option \<Rightarrow> (jc_result \<times> jc_state \<times> jc_token option) option" where
  "jc_parse_number state token =
     (case jc_parse_number_len (source state) (jc_current_source state) 0 of
        None \<Rightarrow> None
      | Some token_len \<Rightarrow>
          (let token' = jc_make_token state token JC_TOKEN_TYPE_NUMBER token_len;
               st1 = jc_advance_source_pos state token_len
           in case jc_get_end_token_type_of_current_nesting st1 of
                None \<Rightarrow> None
              | Some e \<Rightarrow> Some (JC_RESULT_OK, jc_expect_next st1 e, token')))"

definition jc_parse_literal ::
  "jc_state \<Rightarrow> jc_token option \<Rightarrow> jc_token_type \<Rightarrow> string
     \<Rightarrow> (jc_result \<times> jc_state \<times> jc_token option) option" where
  "jc_parse_literal state token token_type literal =
     (let token_len = length literal in
      case strncmp_eq (source state) (jc_current_source state) literal of
        None \<Rightarrow> None
      | Some False \<Rightarrow> Some (JC_RESULT_ERR_UNEXPECTED_TOKEN, state, token)
      | Some True \<Rightarrow>
          (let token' = jc_make_token state token token_type token_len;
               st1 = jc_advance_source_pos state token_len
           in case jc_get_end_token_type_of_current_nesting st1 of
                None \<Rightarrow> None
              | Some e \<Rightarrow> Some (JC_RESULT_OK, jc_expect_next st1 e, token')))"

text \<open>
  \<open>jc_dispatch\<close> is \<open>jc_next_token\<close> from the point where whitespace has been skipped
  and \<open>current_char\<close> has been read.
\<close>

definition jc_dispatch ::
  "jc_state \<Rightarrow> jc_token option \<Rightarrow> char
     \<Rightarrow> (jc_result \<times> jc_state \<times> jc_token option) option" where
  "jc_dispatch state token current_char =
     (if jc_is_expected state JC_NO_TOKENS_EXPECTED then
        Some ((if current_char = JC_CHAR_NULL then JC_RESULT_EOF else JC_RESULT_ERR_GARBAGE),
              state, token)
      else if current_char = JC_CHAR_NULL then
        Some (JC_RESULT_ERR_UNEXPECTED_EOF, state, token)
      else if jc_is_expected state JC_TOKEN_TYPE_OBJECT_START
              \<and> current_char = JC_CHAR_OBJECT_START then
        (let token' = jc_make_token state token JC_TOKEN_TYPE_OBJECT_START 1;
             st1 = jc_advance_source_pos state 1;
             st2 = jc_expect_next st1 (JC_TOKEN_TYPE_FIELD_NAME OR JC_TOKEN_TYPE_OBJECT_END)
         in case jc_nest st2 JC_NESTING_TYPE_OBJECT of
              None \<Rightarrow> None
            | Some (r, st3) \<Rightarrow> Some (r, st3, token'))
      else if jc_is_expected state JC_TOKEN_TYPE_ARRAY_START
              \<and> current_char = JC_CHAR_ARRAY_START then
        (let token' = jc_make_token state token JC_TOKEN_TYPE_ARRAY_START 1;
             st1 = jc_advance_source_pos state 1;
             st2 = jc_expect_next st1 (JC_TOKEN_TYPE_VALUE OR JC_TOKEN_TYPE_ARRAY_END)
         in case jc_nest st2 JC_NESTING_TYPE_ARRAY of
              None \<Rightarrow> None
            | Some (r, st3) \<Rightarrow> Some (r, st3, token'))
      else if jc_is_expected state JC_TOKEN_TYPE_OBJECT_END
              \<and> current_char = JC_CHAR_OBJECT_END then
        (let token' = jc_make_token state token JC_TOKEN_TYPE_OBJECT_END 1;
             st1 = jc_advance_source_pos state 1
         in case jc_unnest st1 of
              (r, st2) \<Rightarrow>
                if r \<noteq> JC_RESULT_OK
                then Some (JC_RESULT_ERR_CORRUPTED_STATE, st2, token')
                else
                  (case jc_get_end_token_type_of_current_nesting st2 of
                     None \<Rightarrow> None
                   | Some e \<Rightarrow> Some (JC_RESULT_OK, jc_expect_next st2 e, token')))
      else if jc_is_expected state JC_TOKEN_TYPE_ARRAY_END
              \<and> current_char = JC_CHAR_ARRAY_END then
        (let token' = jc_make_token state token JC_TOKEN_TYPE_ARRAY_END 1;
             st1 = jc_advance_source_pos state 1
         in case jc_unnest st1 of
              (r, st2) \<Rightarrow>
                if r \<noteq> JC_RESULT_OK
                then Some (JC_RESULT_ERR_CORRUPTED_STATE, st2, token')
                else
                  (case jc_get_end_token_type_of_current_nesting st2 of
                     None \<Rightarrow> None
                   | Some e \<Rightarrow> Some (JC_RESULT_OK, jc_expect_next st2 e, token')))
      else if jc_is_expected state JC_TOKEN_TYPE_COLON
              \<and> current_char = JC_CHAR_COLON then
        Some (JC_RESULT_OK,
              jc_expect_next (jc_advance_source_pos state 1) JC_TOKEN_TYPE_VALUE,
              jc_make_token state token JC_TOKEN_TYPE_COLON 1)
      else if jc_is_expected state JC_TOKEN_TYPE_COMMA
              \<and> current_char = JC_CHAR_COMMA then
        (let token' = jc_make_token state token JC_TOKEN_TYPE_COMMA 1;
             st1 = jc_advance_source_pos state 1
         in case jc_get_token_type_after_comma_of_current_nesting st1 of
              None \<Rightarrow> None
            | Some e \<Rightarrow> Some (JC_RESULT_OK, jc_expect_next st1 e, token'))
      else if jc_is_expected state (JC_TOKEN_TYPE_FIELD_NAME OR JC_TOKEN_TYPE_STRING)
              \<and> current_char = JC_CHAR_DQUOTE then
        jc_parse_string_or_field_name state token
      else if jc_is_expected state JC_TOKEN_TYPE_NUMBER
              \<and> strchr JC_VALID_CHARS_IN_NUMBER current_char then
        jc_parse_number state token
      else if jc_is_expected state JC_TOKEN_TYPE_TRUE
              \<and> strchr JC_LIT_TRUE current_char then
        jc_parse_literal state token JC_TOKEN_TYPE_TRUE JC_LIT_TRUE
      else if jc_is_expected state JC_TOKEN_TYPE_FALSE
              \<and> strchr JC_LIT_FALSE current_char then
        jc_parse_literal state token JC_TOKEN_TYPE_FALSE JC_LIT_FALSE
      else if jc_is_expected state JC_TOKEN_TYPE_NULL
              \<and> strchr JC_LIT_NULL current_char then
        jc_parse_literal state token JC_TOKEN_TYPE_NULL JC_LIT_NULL
      else Some (JC_RESULT_ERR_UNEXPECTED_TOKEN, state, token))"

text \<open>
  \<open>jc_next_token\<close>. A null state pointer is \<open>None\<close>; the state after the call is the
  struct the pointer addresses, if any.
\<close>

definition jc_next_token ::
  "jc_state option \<Rightarrow> jc_token option
     \<Rightarrow> (jc_result \<times> jc_state option \<times> jc_token option) option" where
  "jc_next_token state token =
     (case state of
        None \<Rightarrow> Some (JC_RESULT_ERR_CORRUPTED_STATE, None, token)
      | Some st \<Rightarrow>
          (case jc_skip_whitespace st of
             None \<Rightarrow> None
           | Some st1 \<Rightarrow>
               (case source_at st1 (source_pos st1) of
                  None \<Rightarrow> None
                | Some current_char \<Rightarrow>
                    (case jc_dispatch st1 token current_char of
                       None \<Rightarrow> None
                     | Some (r, st2, token') \<Rightarrow> Some (r, Some st2, token')))))"

section \<open>Auxiliary definitions for the proofs\<close>

text \<open>
  The expected-token-set as a set: the enumerators whose bit \<open>jc_is_expected\<close> finds in
  the bitmask.
\<close>

definition all_token_types :: "jc_token_type list" where
  "all_token_types =
     [JC_TOKEN_TYPE_NUMBER, JC_TOKEN_TYPE_STRING, JC_TOKEN_TYPE_TRUE, JC_TOKEN_TYPE_FALSE,
      JC_TOKEN_TYPE_NULL, JC_TOKEN_TYPE_ARRAY_START, JC_TOKEN_TYPE_ARRAY_END,
      JC_TOKEN_TYPE_OBJECT_START, JC_TOKEN_TYPE_OBJECT_END, JC_TOKEN_TYPE_FIELD_NAME,
      JC_TOKEN_TYPE_COMMA, JC_TOKEN_TYPE_COLON]"

definition expected_set :: "jc_state \<Rightarrow> jc_token_type set" where
  "expected_set state = set (filter (jc_is_expected state) all_token_types)"

text \<open>
  \<open>jc_dispatch\<close> is a chain of guarded returns. For case analysis it is split into the
  choice of the production, \<open>jc_select\<close>, with the guards of the source in their order,
  and the body of each production, \<open>jc_produce\<close>; lemma \<open>jc_dispatch_select\<close> below
  shows that the two together are \<open>jc_dispatch\<close>.
\<close>

datatype jc_production =
    NoTokensExpected | UnexpectedEof | ObjectStart | ArrayStart | ObjectEnd | ArrayEnd
  | Colon | Comma | StringOrFieldName | Number | LitTrue | LitFalse | LitNull | NoProduction

definition jc_select :: "jc_state \<Rightarrow> char \<Rightarrow> jc_production" where
  "jc_select state current_char =
     (if jc_is_expected state JC_NO_TOKENS_EXPECTED then NoTokensExpected
      else if current_char = JC_CHAR_NULL then UnexpectedEof
      else if jc_is_expected state JC_TOKEN_TYPE_OBJECT_START
              \<and> current_char = JC_CHAR_OBJECT_START then ObjectStart
      else if jc_is_expected state JC_TOKEN_TYPE_ARRAY_START
              \<and> current_char = JC_CHAR_ARRAY_START then ArrayStart
      else if jc_is_expected state JC_TOKEN_TYPE_OBJECT_END
              \<and> current_char = JC_CHAR_OBJECT_END then ObjectEnd
      else if jc_is_expected state JC_TOKEN_TYPE_ARRAY_END
              \<and> current_char = JC_CHAR_ARRAY_END then ArrayEnd
      else if jc_is_expected state JC_TOKEN_TYPE_COLON
              \<and> current_char = JC_CHAR_COLON then Colon
      else if jc_is_expected state JC_TOKEN_TYPE_COMMA
              \<and> current_char = JC_CHAR_COMMA then Comma
      else if jc_is_expected state (JC_TOKEN_TYPE_FIELD_NAME OR JC_TOKEN_TYPE_STRING)
              \<and> current_char = JC_CHAR_DQUOTE then StringOrFieldName
      else if jc_is_expected state JC_TOKEN_TYPE_NUMBER
              \<and> strchr JC_VALID_CHARS_IN_NUMBER current_char then Number
      else if jc_is_expected state JC_TOKEN_TYPE_TRUE
              \<and> strchr JC_LIT_TRUE current_char then LitTrue
      else if jc_is_expected state JC_TOKEN_TYPE_FALSE
              \<and> strchr JC_LIT_FALSE current_char then LitFalse
      else if jc_is_expected state JC_TOKEN_TYPE_NULL
              \<and> strchr JC_LIT_NULL current_char then LitNull
      else NoProduction)"

definition jc_start_production ::
  "jc_state \<Rightarrow> jc_token option \<Rightarrow> jc_token_type \<Rightarrow> jc_token_type \<Rightarrow> jc_nesting_type
     \<Rightarrow> (jc_result \<times> jc_state \<times> jc_token option) option" where
  "jc_start_production state token token_type expected nesting =
     (case jc_nest (jc_expect_next (jc_advance_source_pos state 1) expected) nesting of
        None \<Rightarrow> None
      | Some (r, st3) \<Rightarrow> Some (r, st3, jc_make_token state token token_type 1))"

definition jc_end_production ::
  "jc_state \<Rightarrow> jc_token option \<Rightarrow> jc_token_type
     \<Rightarrow> (jc_result \<times> jc_state \<times> jc_token option) option" where
  "jc_end_production state token token_type =
     (case jc_unnest (jc_advance_source_pos state 1) of
        (r, st2) \<Rightarrow>
          if r \<noteq> JC_RESULT_OK
          then Some (JC_RESULT_ERR_CORRUPTED_STATE, st2, jc_make_token state token token_type 1)
          else
            (case jc_get_end_token_type_of_current_nesting st2 of
               None \<Rightarrow> None
             | Some e \<Rightarrow>
                 Some (JC_RESULT_OK, jc_expect_next st2 e,
                       jc_make_token state token token_type 1)))"

fun jc_produce ::
  "jc_state \<Rightarrow> jc_token option \<Rightarrow> char \<Rightarrow> jc_production
     \<Rightarrow> (jc_result \<times> jc_state \<times> jc_token option) option" where
  "jc_produce st tok c NoTokensExpected =
     Some ((if c = JC_CHAR_NULL then JC_RESULT_EOF else JC_RESULT_ERR_GARBAGE), st, tok)"
| "jc_produce st tok c UnexpectedEof = Some (JC_RESULT_ERR_UNEXPECTED_EOF, st, tok)"
| "jc_produce st tok c ObjectStart =
     jc_start_production st tok JC_TOKEN_TYPE_OBJECT_START
       (JC_TOKEN_TYPE_FIELD_NAME OR JC_TOKEN_TYPE_OBJECT_END) JC_NESTING_TYPE_OBJECT"
| "jc_produce st tok c ArrayStart =
     jc_start_production st tok JC_TOKEN_TYPE_ARRAY_START
       (JC_TOKEN_TYPE_VALUE OR JC_TOKEN_TYPE_ARRAY_END) JC_NESTING_TYPE_ARRAY"
| "jc_produce st tok c ObjectEnd = jc_end_production st tok JC_TOKEN_TYPE_OBJECT_END"
| "jc_produce st tok c ArrayEnd = jc_end_production st tok JC_TOKEN_TYPE_ARRAY_END"
| "jc_produce st tok c Colon =
     Some (JC_RESULT_OK, jc_expect_next (jc_advance_source_pos st 1) JC_TOKEN_TYPE_VALUE,
           jc_make_token st tok JC_TOKEN_TYPE_COLON 1)"
| "jc_produce st tok c Comma =
     (case jc_get_token_type_after_comma_of_current_nesting (jc_advance_source_pos st 1) of
        None \<Rightarrow> None
      | Some e \<Rightarrow>
          Some (JC_RESULT_OK, jc_expect_next (jc_advance_source_pos st 1) e,
                jc_make_token st tok JC_TOKEN_TYPE_COMMA 1))"
| "jc_produce st tok c StringOrFieldName = jc_parse_string_or_field_name st tok"
| "jc_produce st tok c Number = jc_parse_number st tok"
| "jc_produce st tok c LitTrue = jc_parse_literal st tok JC_TOKEN_TYPE_TRUE JC_LIT_TRUE"
| "jc_produce st tok c LitFalse = jc_parse_literal st tok JC_TOKEN_TYPE_FALSE JC_LIT_FALSE"
| "jc_produce st tok c LitNull = jc_parse_literal st tok JC_TOKEN_TYPE_NULL JC_LIT_NULL"
| "jc_produce st tok c NoProduction = Some (JC_RESULT_ERR_UNEXPECTED_TOKEN, st, tok)"

text \<open>
  The loop of \<open>examples/tokenizer.c\<close>, for at most \<open>n\<close> rounds: it calls
  \<open>jc_next_token\<close> with one token slot until a result is not \<open>JC_RESULT_OK\<close>. The
  model records the result code and the content of the slot after each call.
\<close>

fun jc_tokenize ::
  "nat \<Rightarrow> jc_state option \<Rightarrow> jc_token option \<Rightarrow> (jc_result \<times> jc_token option) list option"
  where
  "jc_tokenize 0 state token = Some []"
| "jc_tokenize (Suc n) state token =
     (case jc_next_token state token of
        None \<Rightarrow> None
      | Some (r, state', token') \<Rightarrow>
          if r = JC_RESULT_OK
          then map_option ((#) (r, token')) (jc_tokenize n state' token')
          else Some [(r, token')])"

text \<open>
  A state struct and a token struct as the caller declares them before \<open>jc_init\<close>, here
  with all bytes zero; \<open>jc_start\<close> is the state after \<open>jc_init\<close> on such a struct.
\<close>

definition zero_state :: jc_state where
  "zero_state =
     \<lparr>source = [], source_pos = 0,
      nesting_stack = replicate 8 JC_NESTING_TYPE_OBJECT,
      nesting_level = 0, expected_token_types = 0\<rparr>"

definition zero_token :: jc_token where
  "zero_token = \<lparr>tok_type = 0, tok_start = 0, tok_end = 0\<rparr>"

definition jc_start :: "string \<Rightarrow> jc_state option" where
  "jc_start src = snd (jc_init (Some zero_state) (Some src))"

text \<open>The states that calls of \<open>jc_next_token\<close> reach after a successful \<open>jc_init\<close>.\<close>

inductive jc_reachable :: "jc_state \<Rightarrow> bool" where
  init: "jc_init (Some st0) (Some src) = (JC_RESULT_OK, Some st) \<Longrightarrow> jc_reachable st"
| step: "jc_reachable st \<Longrightarrow> jc_next_token (Some st) token = Some (r, Some st', token')
           \<Longrightarrow> jc_reachable st'"

text \<open>
  The invariant of the nesting depth: it lies between \<open>-1\<close> and the capacity less one,
  and it is not \<open>-1\<close> while an end token is expected.
\<close>

definition depth_inv :: "jc_state \<Rightarrow> bool" where
  "depth_inv st =
     (JC_NO_NESTING_LEVEL \<le> nesting_level st
      \<and> nesting_level st \<le> JC_MAX_NESTING_LEVEL - 1
      \<and> (if jc_is_expected st JC_TOKEN_TYPE_OBJECT_END
            \<or> jc_is_expected st JC_TOKEN_TYPE_ARRAY_END
         then JC_NO_NESTING_LEVEL < nesting_level st else True))"

text \<open>
  The contents of a string token in the words of the specification: a sequence of
  two-character escapes, a backslash and any character but the null, and of single
  characters that are neither a double quote, nor a backslash, nor the null.
\<close>

fun escaped_run :: "string \<Rightarrow> bool" where
  "escaped_run [] = True"
| "escaped_run [c] = (c \<noteq> JC_CHAR_DQUOTE \<and> c \<noteq> JC_CHAR_NULL \<and> c \<noteq> JC_CHAR_BACKSLASH)"
| "escaped_run (c # d # cs) =
     (if c = JC_CHAR_BACKSLASH then d \<noteq> JC_CHAR_NULL \<and> escaped_run cs
      else c \<noteq> JC_CHAR_DQUOTE \<and> c \<noteq> JC_CHAR_NULL \<and> escaped_run (d # cs))"

text \<open>
  The length of the source string as \<open>strlen\<close> counts it: the number of characters
  before the first null of the buffer.
\<close>

definition source_length :: "string \<Rightarrow> nat" where
  "source_length mem = length (takeWhile (\<lambda>c. c \<noteq> JC_CHAR_NULL) mem)"







text \<open>Forgetting the token slot of a result.\<close>

definition drop_slot ::
  "(jc_result \<times> 's \<times> jc_token option) option \<Rightarrow> (jc_result \<times> 's \<times> jc_token option) option"
  where
  "drop_slot = map_option (\<lambda>(r, st, t). (r, st, None))"

section \<open>Basic facts\<close>

named_theorems jc_consts \<open>the macros and enumerators of jc.h\<close>

lemmas jc_const_defs [jc_consts] =
  JC_TOKEN_TYPE_NUMBER_def JC_TOKEN_TYPE_STRING_def JC_TOKEN_TYPE_TRUE_def
  JC_TOKEN_TYPE_FALSE_def JC_TOKEN_TYPE_NULL_def JC_TOKEN_TYPE_ARRAY_START_def
  JC_TOKEN_TYPE_ARRAY_END_def JC_TOKEN_TYPE_OBJECT_START_def JC_TOKEN_TYPE_OBJECT_END_def
  JC_TOKEN_TYPE_FIELD_NAME_def JC_TOKEN_TYPE_COMMA_def JC_TOKEN_TYPE_COLON_def
  JC_MAX_NESTING_LEVEL_def JC_NO_TOKENS_EXPECTED_def JC_NO_NESTING_LEVEL_def
  JC_TOKEN_TYPE_VALUE_def JC_CHAR_NULL_def JC_CHAR_OBJECT_START_def JC_CHAR_OBJECT_END_def
  JC_CHAR_ARRAY_START_def JC_CHAR_ARRAY_END_def JC_CHAR_COMMA_def JC_CHAR_COLON_def
  JC_CHAR_DQUOTE_def JC_CHAR_BACKSLASH_def JC_LIT_TRUE_def JC_LIT_FALSE_def JC_LIT_NULL_def
  JC_VALID_CHARS_IN_NUMBER_def

lemma jc_dispatch_select: "jc_dispatch st tok c = jc_produce st tok c (jc_select st c)"
  unfolding jc_dispatch_def jc_select_def
  by (simp add: Let_def if_distrib [of "jc_produce st tok c"] jc_start_production_def
        jc_end_production_def
      del: One_nat_def cong: if_cong split del: if_split)

lemma jc_make_token_None [simp]: "jc_make_token st None ty len = None"
  by (simp add: jc_make_token_def)

section \<open>The token slot is only written\<close>

lemma drop_slot_simps [simp]:
  "drop_slot None = None"
  "drop_slot (Some (r, s, t)) = Some (r, s, None)"
  by (simp_all add: drop_slot_def)

lemma parse_string_slot:
  "jc_parse_string_or_field_name st None
   = drop_slot (jc_parse_string_or_field_name st (Some tok))"
  by (simp add: jc_parse_string_or_field_name_def Let_def split: option.split)

lemma parse_number_slot:
  "jc_parse_number st None = drop_slot (jc_parse_number st (Some tok))"
  by (simp add: jc_parse_number_def Let_def split: option.split)

lemma parse_literal_slot:
  "jc_parse_literal st None ty lit = drop_slot (jc_parse_literal st (Some tok) ty lit)"
  by (simp add: jc_parse_literal_def Let_def split: option.split bool.split)

lemma dispatch_slot:
  "jc_dispatch st None c = drop_slot (jc_dispatch st (Some tok) c)"
  unfolding jc_dispatch_def
  by (simp add: parse_string_slot [where tok=tok] parse_number_slot [where tok=tok]
        parse_literal_slot [where tok=tok] Let_def
        if_distrib [of drop_slot] option.case_distrib [of drop_slot]
        prod.case_distrib [of drop_slot]
      cong: if_cong option.case_cong prod.case_cong split del: if_split)

text \<open>
  Claim C9. A call of \<open>jc_next_token\<close> with a null token pointer reads outside the
  buffer exactly when the call with a token slot does, and otherwise returns the same
  result code and leaves the same state; the only difference is that there is no slot
  to hold a token.
\<close>

theorem jc_next_token_null_slot:
  "jc_next_token state None
   = map_option (\<lambda>(r, st, t). (r, st, None)) (jc_next_token state (Some tok))"
proof (cases state)
  case None
  then show ?thesis by (simp add: jc_next_token_def)
next
  case (Some st)
  then show ?thesis
    by (simp add: jc_next_token_def dispatch_slot [where tok=tok] drop_slot_def
          option.map_comp comp_def split: option.split)
qed

theorem jc_next_token_null_slot_witness:
  "jc_next_token (jc_start (''[1,]'' @ [JC_CHAR_NULL])) None
   = Some (JC_RESULT_OK,
           Some \<lparr>source = ''[1,]'' @ [JC_CHAR_NULL], source_pos = 1,
                 nesting_stack = JC_NESTING_TYPE_ARRAY # replicate 7 JC_NESTING_TYPE_OBJECT,
                 nesting_level = 0,
                 expected_token_types = JC_TOKEN_TYPE_VALUE OR JC_TOKEN_TYPE_ARRAY_END\<rparr>,
           None)"
proof -
  have "jc_next_token (jc_start (''[1,]'' @ [JC_CHAR_NULL])) (Some zero_token)
        = Some (JC_RESULT_OK,
                Some \<lparr>source = ''[1,]'' @ [JC_CHAR_NULL], source_pos = 1,
                      nesting_stack = JC_NESTING_TYPE_ARRAY # replicate 7 JC_NESTING_TYPE_OBJECT,
                      nesting_level = 0,
                      expected_token_types = JC_TOKEN_TYPE_VALUE OR JC_TOKEN_TYPE_ARRAY_END\<rparr>,
                Some \<lparr>tok_type = JC_TOKEN_TYPE_ARRAY_START, tok_start = 0, tok_end = 1\<rparr>)"
    by code_simp
  with jc_next_token_null_slot [of "jc_start (''[1,]'' @ [JC_CHAR_NULL])" zero_token]
  show ?thesis by simp
qed

section \<open>Initialisation\<close>

text \<open>
  Claim C8. \<open>jc_init\<close> returns \<open>JC_RESULT_ERR_CANT_INIT\<close> if and only if the state
  pointer or the source pointer is null, and then the state is untouched. Otherwise it
  returns \<open>JC_RESULT_OK\<close> and the state differs from the one before in four fields only:
  the source is bound, the position is 0, the nesting depth is \<open>-1\<close>, and the
  expected-token-set is the any-value set of number, string, true, false, null,
  array-start and object-start. The nesting stack keeps its content.
\<close>

theorem jc_init_contract:
  "(fst (jc_init state src) = JC_RESULT_ERR_CANT_INIT \<longleftrightarrow> state = None \<or> src = None)
   \<and> (state = None \<or> src = None \<longrightarrow> snd (jc_init state src) = state)
   \<and> (\<forall>st s. state = Some st \<and> src = Some s \<longrightarrow>
         (\<exists>st'. jc_init state src = (JC_RESULT_OK, Some st')
            \<and> st' = st\<lparr>source := s, source_pos := 0,
                        nesting_level := JC_NO_NESTING_LEVEL,
                        expected_token_types := JC_TOKEN_TYPE_VALUE\<rparr>
            \<and> source_pos st' = 0 \<and> nesting_level st' = -1
            \<and> nesting_stack st' = nesting_stack st
            \<and> expected_set st' =
                {JC_TOKEN_TYPE_NUMBER, JC_TOKEN_TYPE_STRING, JC_TOKEN_TYPE_TRUE,
                 JC_TOKEN_TYPE_FALSE, JC_TOKEN_TYPE_NULL, JC_TOKEN_TYPE_ARRAY_START,
                 JC_TOKEN_TYPE_OBJECT_START}))"
  by (auto simp: jc_init_def expected_set_def all_token_types_def jc_is_expected_def jc_consts
        split: option.splits)

theorem jc_init_contract_witness:
  "jc_init (Some zero_state) (Some (''42'' @ [JC_CHAR_NULL]))
     = (JC_RESULT_OK,
        Some (zero_state\<lparr>source := ''42'' @ [JC_CHAR_NULL], source_pos := 0,
                          nesting_level := JC_NO_NESTING_LEVEL,
                          expected_token_types := JC_TOKEN_TYPE_VALUE\<rparr>))
   \<and> fst (jc_init None (Some (''42'' @ [JC_CHAR_NULL]))) = JC_RESULT_ERR_CANT_INIT
   \<and> fst (jc_init (Some zero_state) None) = JC_RESULT_ERR_CANT_INIT"
  using jc_init_contract [of "Some zero_state" "Some (''42'' @ [JC_CHAR_NULL])"]
    jc_init_contract [of None "Some (''42'' @ [JC_CHAR_NULL])"]
    jc_init_contract [of "Some zero_state" None]
  by simp

section \<open>The nesting depth\<close>

lemma depth_inv_advance [simp]:
  "depth_inv (st\<lparr>source_pos := p\<rparr>) = depth_inv st"
  by (simp add: depth_inv_def jc_is_expected_def)

lemma end_token_type_inv:
  assumes "jc_get_end_token_type_of_current_nesting st = Some e"
    and "JC_NO_NESTING_LEVEL \<le> nesting_level st" "nesting_level st \<le> JC_MAX_NESTING_LEVEL - 1"
  shows "depth_inv (jc_expect_next st e)"
  using assms
  by (auto simp: jc_get_end_token_type_of_current_nesting_def depth_inv_def jc_expect_next_def
        jc_is_expected_def jc_consts split: if_splits option.splits)

lemma parse_number_inv:
  assumes "depth_inv st" "jc_parse_number st tok = Some (r, st', tok')"
  shows "depth_inv st' \<and> r = JC_RESULT_OK"
proof -
  from assms(2) obtain n e where
    e: "jc_get_end_token_type_of_current_nesting (jc_advance_source_pos st n) = Some e"
    and st': "st' = jc_expect_next (jc_advance_source_pos st n) e" and r: "r = JC_RESULT_OK"
    by (auto simp: jc_parse_number_def Let_def split: option.splits)
  from assms(1) have "JC_NO_NESTING_LEVEL \<le> nesting_level (jc_advance_source_pos st n)"
    "nesting_level (jc_advance_source_pos st n) \<le> JC_MAX_NESTING_LEVEL - 1"
    by (simp_all add: depth_inv_def jc_advance_source_pos_def)
  from end_token_type_inv [OF e this] st' r show ?thesis by simp
qed

lemma parse_literal_inv:
  assumes "depth_inv st" "jc_parse_literal st tok ty lit = Some (r, st', tok')"
  shows "depth_inv st' \<and> r \<noteq> JC_RESULT_ERR_CORRUPTED_STATE"
proof (cases "r = JC_RESULT_OK")
  case False
  with assms show ?thesis
    by (auto simp: jc_parse_literal_def Let_def split: option.splits bool.splits)
next
  case True
  with assms(2) obtain n e where
    e: "jc_get_end_token_type_of_current_nesting (jc_advance_source_pos st n) = Some e"
    and st': "st' = jc_expect_next (jc_advance_source_pos st n) e"
    by (auto simp: jc_parse_literal_def Let_def split: option.splits bool.splits)
  from assms(1) have "JC_NO_NESTING_LEVEL \<le> nesting_level (jc_advance_source_pos st n)"
    "nesting_level (jc_advance_source_pos st n) \<le> JC_MAX_NESTING_LEVEL - 1"
    by (simp_all add: depth_inv_def jc_advance_source_pos_def)
  from end_token_type_inv [OF e this] st' True show ?thesis by simp
qed

lemma parse_string_inv:
  assumes "depth_inv st" "jc_parse_string_or_field_name st tok = Some (r, st', tok')"
  shows "depth_inv st' \<and> r \<noteq> JC_RESULT_ERR_CORRUPTED_STATE"
proof (cases "r = JC_RESULT_OK")
  case False
  with assms show ?thesis
    by (auto simp: jc_parse_string_or_field_name_def Let_def split: option.splits if_splits)
next
  case True
  show ?thesis
  proof (cases "jc_is_expected st JC_TOKEN_TYPE_FIELD_NAME")
    case fn: True
    with assms(2) True obtain p where "st' = jc_expect_next (st\<lparr>source_pos := p\<rparr>) JC_TOKEN_TYPE_COLON"
      by (auto simp: jc_parse_string_or_field_name_def Let_def jc_advance_source_pos_def
            split: option.splits)
    with assms(1) True show ?thesis
      by (simp add: depth_inv_def jc_expect_next_def jc_is_expected_def jc_consts)
  next
    case nfn: False
    with assms(2) True obtain p e where
      e: "jc_get_end_token_type_of_current_nesting (st\<lparr>source_pos := p\<rparr>) = Some e"
      and st': "st' = jc_expect_next (st\<lparr>source_pos := p\<rparr>) e"
      by (auto simp: jc_parse_string_or_field_name_def Let_def jc_advance_source_pos_def jc_consts
            split: option.splits if_splits)
    from assms(1) have "JC_NO_NESTING_LEVEL \<le> nesting_level (st\<lparr>source_pos := p\<rparr>)"
      "nesting_level (st\<lparr>source_pos := p\<rparr>) \<le> JC_MAX_NESTING_LEVEL - 1"
      by (simp_all add: depth_inv_def)
    from end_token_type_inv [OF e this] st' True show ?thesis by simp
  qed
qed

lemma start_production_inv:
  assumes "depth_inv st" and "jc_start_production st tok ty e nt = Some (r, st', tok')"
  shows "depth_inv st' \<and> r \<noteq> JC_RESULT_ERR_CORRUPTED_STATE"
  using assms
  by (auto simp: jc_start_production_def jc_nest_def depth_inv_def jc_expect_next_def
        jc_advance_source_pos_def jc_is_expected_def Let_def jc_consts
        split: if_splits option.splits)

lemma end_production_inv:
  assumes "depth_inv st"
    and "jc_is_expected st JC_TOKEN_TYPE_OBJECT_END \<or> jc_is_expected st JC_TOKEN_TYPE_ARRAY_END"
    and "jc_end_production st tok ty = Some (r, st', tok')"
  shows "depth_inv st' \<and> r = JC_RESULT_OK"
proof -
  let ?st1 = "jc_advance_source_pos st 1"
  from assms(1,2) have lv: "JC_NO_NESTING_LEVEL < nesting_level ?st1"
    "nesting_level ?st1 \<le> JC_MAX_NESTING_LEVEL - 1"
    by (auto simp: depth_inv_def jc_advance_source_pos_def split: if_splits)
  let ?st2 = "?st1\<lparr>nesting_level := nesting_level ?st1 - 1\<rparr>"
  from lv have u: "jc_unnest ?st1 = (JC_RESULT_OK, ?st2)"
    by (simp add: jc_unnest_def)
  from assms(3) u obtain e where
    e: "jc_get_end_token_type_of_current_nesting ?st2 = Some e"
    and r: "r = JC_RESULT_OK" "st' = jc_expect_next ?st2 e"
    by (auto simp: jc_end_production_def split: option.splits)
  from lv have "JC_NO_NESTING_LEVEL \<le> nesting_level ?st2"
    "nesting_level ?st2 \<le> JC_MAX_NESTING_LEVEL - 1"
    by simp_all
  from end_token_type_inv [OF e this] r show ?thesis by simp
qed

lemma colon_inv:
  assumes "depth_inv st"
  shows "depth_inv (jc_expect_next (jc_advance_source_pos st n) JC_TOKEN_TYPE_VALUE)"
  using assms
  by (simp add: depth_inv_def jc_expect_next_def jc_advance_source_pos_def jc_is_expected_def
        jc_consts)

lemma comma_inv:
  assumes "depth_inv st"
    and "jc_get_token_type_after_comma_of_current_nesting (jc_advance_source_pos st n) = Some e"
  shows "depth_inv (jc_expect_next (jc_advance_source_pos st n) e)"
  using assms
  by (auto simp: jc_get_token_type_after_comma_of_current_nesting_def depth_inv_def
        jc_expect_next_def jc_advance_source_pos_def jc_is_expected_def jc_consts
        split: if_splits option.splits)

lemma jc_select_end:
  "jc_select st c = ObjectEnd \<Longrightarrow> jc_is_expected st JC_TOKEN_TYPE_OBJECT_END"
  "jc_select st c = ArrayEnd \<Longrightarrow> jc_is_expected st JC_TOKEN_TYPE_ARRAY_END"
  by (simp_all add: jc_select_def split: if_splits)

lemma produce_inv:
  assumes "depth_inv st" and "jc_produce st tok c (jc_select st c) = Some (r, st', tok')"
  shows "depth_inv st' \<and> r \<noteq> JC_RESULT_ERR_CORRUPTED_STATE"
proof (cases "jc_select st c")
  case NoTokensExpected
  with assms show ?thesis by (auto split: if_splits)
next
  case UnexpectedEof
  with assms show ?thesis by auto
next
  case ObjectStart
  with assms start_production_inv [OF assms(1)] show ?thesis by simp
next
  case ArrayStart
  with assms start_production_inv [OF assms(1)] show ?thesis by simp
next
  case ObjectEnd
  with assms end_production_inv [OF assms(1)] jc_select_end(1) [of st c] show ?thesis
    by fastforce
next
  case ArrayEnd
  with assms end_production_inv [OF assms(1)] jc_select_end(2) [of st c] show ?thesis
    by fastforce
next
  case Colon
  with assms colon_inv [OF assms(1)] show ?thesis by auto
next
  case Comma
  with assms comma_inv [OF assms(1)] show ?thesis by (auto split: option.splits)
next
  case StringOrFieldName
  with assms parse_string_inv [OF assms(1)] show ?thesis by simp
next
  case Number
  with assms parse_number_inv [OF assms(1)] show ?thesis by fastforce
next
  case LitTrue
  with assms parse_literal_inv [OF assms(1)] show ?thesis by simp
next
  case LitFalse
  with assms parse_literal_inv [OF assms(1)] show ?thesis by simp
next
  case LitNull
  with assms parse_literal_inv [OF assms(1)] show ?thesis by simp
next
  case NoProduction
  with assms show ?thesis by auto
qed

lemma jc_skip_whitespace_Some:
  "jc_skip_whitespace st = Some st1 \<Longrightarrow>
     \<exists>p. st1 = st\<lparr>source_pos := p\<rparr> \<and> source_pos st \<le> p \<and> p < length (source st)
        \<and> \<not> isspace (source st ! p)
        \<and> (\<forall>i. source_pos st \<le> i \<and> i < p \<longrightarrow> isspace (source st ! i))"
proof (induction st rule: jc_skip_whitespace.induct)
  case (1 state)
  show ?case
  proof (cases "source_pos state < length (source state)")
    case False
    with "1.prems" show ?thesis by (simp add: jc_skip_whitespace.simps [of state])
  next
    case inb: True
    show ?thesis
    proof (cases "isspace (source state ! source_pos state)")
      case False
      with inb "1.prems" have "st1 = state" by (simp add: jc_skip_whitespace.simps [of state])
      with inb False show ?thesis by (intro exI [of _ "source_pos state"]) auto
    next
      case True
      let ?nx = "state\<lparr>source_pos := source_pos state + 1\<rparr>"
      from inb True "1.prems" have "jc_skip_whitespace ?nx = Some st1"
        by (simp add: jc_skip_whitespace.simps [of state])
      from "1.IH" [OF inb True this] obtain p where
        p: "st1 = ?nx\<lparr>source_pos := p\<rparr>" "source_pos state + 1 \<le> p" "p < length (source state)"
           "\<not> isspace (source state ! p)"
           "\<forall>i. source_pos state + 1 \<le> i \<and> i < p \<longrightarrow> isspace (source state ! i)"
        by auto
      have "\<forall>i. source_pos state \<le> i \<and> i < p \<longrightarrow> isspace (source state ! i)"
      proof (intro allI impI)
        fix i assume "source_pos state \<le> i \<and> i < p"
        then consider "i = source_pos state" | "source_pos state + 1 \<le> i \<and> i < p" by linarith
        then show "isspace (source state ! i)" using True p(5) by cases auto
      qed
      with p show ?thesis by (intro exI [of _ p]) auto
    qed
  qed
qed

lemma jc_skip_whitespace_inv:
  assumes "jc_skip_whitespace st = Some st1" shows "depth_inv st1 = depth_inv st"
  using jc_skip_whitespace_Some [OF assms] by auto

lemma next_token_inv:
  assumes "depth_inv st" and "jc_next_token (Some st) tok = Some (r, so', tok')"
  shows "(\<exists>st'. so' = Some st' \<and> depth_inv st') \<and> r \<noteq> JC_RESULT_ERR_CORRUPTED_STATE"
proof -
  from assms(2) obtain st1 c st' where
    ws: "jc_skip_whitespace st = Some st1"
    and d: "jc_dispatch st1 tok c = Some (r, st', tok')" and so: "so' = Some st'"
    by (auto simp: jc_next_token_def split: option.splits)
  from ws assms(1) have "depth_inv st1" by (simp add: jc_skip_whitespace_inv)
  from produce_inv [OF this d [unfolded jc_dispatch_select]] so show ?thesis by simp
qed

lemma jc_init_inv:
  assumes "jc_init (Some st0) (Some src) = (JC_RESULT_OK, Some st)" shows "depth_inv st"
  using assms by (auto simp: jc_init_def depth_inv_def jc_is_expected_def jc_consts)

lemma jc_reachable_inv: "jc_reachable st \<Longrightarrow> depth_inv st"
proof (induction rule: jc_reachable.induct)
  case (init st0 src st)
  then show ?case by (rule jc_init_inv)
next
  case (step st token r st' token')
  from next_token_inv [OF step.IH step.hyps(2)] show ?case by simp
qed

text \<open>
  Claim C10. In every state that calls of \<open>jc_next_token\<close> reach after a successful
  \<open>jc_init\<close>, the nesting depth lies between \<open>-1\<close> and the capacity less one; whenever
  the object-end or the array-end production is taken there (its kind is expected and
  its character is the current one, after whitespace), the nesting stack is not empty;
  and no call returns \<open>JC_RESULT_ERR_CORRUPTED_STATE\<close>.
\<close>

theorem jc_reachable_depth:
  assumes "jc_reachable st"
  shows "JC_NO_NESTING_LEVEL \<le> nesting_level st \<and> nesting_level st \<le> JC_MAX_NESTING_LEVEL - 1
         \<and> (\<forall>st1 c. jc_skip_whitespace st = Some st1 \<and> source_at st1 (source_pos st1) = Some c
                \<and> (jc_is_expected st1 JC_TOKEN_TYPE_OBJECT_END \<and> c = JC_CHAR_OBJECT_END
                    \<or> jc_is_expected st1 JC_TOKEN_TYPE_ARRAY_END \<and> c = JC_CHAR_ARRAY_END)
                \<longrightarrow> JC_NO_NESTING_LEVEL < nesting_level st1)
         \<and> (\<forall>token r st' token'. jc_next_token (Some st) token = Some (r, st', token')
                \<longrightarrow> r \<noteq> JC_RESULT_ERR_CORRUPTED_STATE)"
proof -
  note inv = jc_reachable_inv [OF assms]
  have a: "JC_NO_NESTING_LEVEL \<le> nesting_level st \<and> nesting_level st \<le> JC_MAX_NESTING_LEVEL - 1"
    using inv by (simp add: depth_inv_def)
  have b: "JC_NO_NESTING_LEVEL < nesting_level st1"
    if "jc_skip_whitespace st = Some st1"
      and "jc_is_expected st1 JC_TOKEN_TYPE_OBJECT_END \<and> c = JC_CHAR_OBJECT_END
           \<or> jc_is_expected st1 JC_TOKEN_TYPE_ARRAY_END \<and> c = JC_CHAR_ARRAY_END"
    for st1 c
  proof -
    from that(1) inv have "depth_inv st1" by (simp add: jc_skip_whitespace_inv)
    with that(2) show ?thesis by (auto simp: depth_inv_def split: if_splits)
  qed
  have c: "r \<noteq> JC_RESULT_ERR_CORRUPTED_STATE"
    if "jc_next_token (Some st) token = Some (r, st', token')" for token r st' token'
    using next_token_inv [OF inv that] by simp
  from a b c show ?thesis by blast
qed


theorem jc_reachable_depth_witness:
  "jc_reachable
     \<lparr>source = ''[]'' @ [JC_CHAR_NULL], source_pos = 1,
      nesting_stack = JC_NESTING_TYPE_ARRAY # replicate 7 JC_NESTING_TYPE_OBJECT,
      nesting_level = 0,
      expected_token_types = JC_TOKEN_TYPE_VALUE OR JC_TOKEN_TYPE_ARRAY_END\<rparr>
   \<and> JC_NO_NESTING_LEVEL
       < nesting_level
           \<lparr>source = ''[]'' @ [JC_CHAR_NULL], source_pos = 1,
            nesting_stack = JC_NESTING_TYPE_ARRAY # replicate 7 JC_NESTING_TYPE_OBJECT,
            nesting_level = 0,
            expected_token_types = JC_TOKEN_TYPE_VALUE OR JC_TOKEN_TYPE_ARRAY_END\<rparr>"
proof -
  let ?src = "''[]'' @ [JC_CHAR_NULL]"
  let ?s0 = "zero_state\<lparr>source := ?src, source_pos := 0,
               nesting_level := JC_NO_NESTING_LEVEL,
               expected_token_types := JC_TOKEN_TYPE_VALUE\<rparr>"
  let ?s1 = "\<lparr>source = ?src, source_pos = 1,
              nesting_stack = JC_NESTING_TYPE_ARRAY # replicate 7 JC_NESTING_TYPE_OBJECT,
              nesting_level = 0,
              expected_token_types = JC_TOKEN_TYPE_VALUE OR JC_TOKEN_TYPE_ARRAY_END\<rparr>"
  have i: "jc_init (Some zero_state) (Some ?src) = (JC_RESULT_OK, Some ?s0)"
    by code_simp
  have n: "jc_next_token (Some ?s0) None = Some (JC_RESULT_OK, Some ?s1, None)"
    by code_simp
  have r: "jc_reachable ?s1"
    by (rule jc_reachable.step [OF jc_reachable.init [OF i] n])
  have ws: "jc_skip_whitespace ?s1 = Some ?s1"
    by code_simp
  have c: "source_at ?s1 (source_pos ?s1) = Some JC_CHAR_ARRAY_END"
    by code_simp
  have e: "jc_is_expected ?s1 JC_TOKEN_TYPE_ARRAY_END"
    by code_simp
  from jc_reachable_depth [OF r] ws c e have "JC_NO_NESTING_LEVEL < nesting_level ?s1"
    by blast
  with r show ?thesis by simp
qed

section \<open>Which production is taken\<close>

lemma jc_next_token_produce:
  assumes "jc_skip_whitespace st = Some st1" and "source_at st1 (source_pos st1) = Some c"
  shows "jc_next_token (Some st) tok
         = map_option (\<lambda>(r, s, t). (r, Some s, t)) (jc_produce st1 tok c (jc_select st1 c))"
  using assms
  by (simp add: jc_next_token_def jc_dispatch_select split: option.split)

lemma expected_not_empty:
  assumes "jc_is_expected st ty" and "ty \<noteq> JC_NO_TOKENS_EXPECTED"
  shows "\<not> jc_is_expected st JC_NO_TOKENS_EXPECTED"
  using assms by (auto simp: jc_is_expected_def JC_NO_TOKENS_EXPECTED_def)

lemma jc_select_NoTokensExpected:
  "jc_select st c = NoTokensExpected \<longleftrightarrow> expected_token_types st = JC_NO_TOKENS_EXPECTED"
  by (simp add: jc_select_def jc_is_expected_def)

lemma jc_select_UnexpectedEof:
  "jc_select st c = UnexpectedEof
   \<longleftrightarrow> expected_token_types st \<noteq> JC_NO_TOKENS_EXPECTED \<and> c = JC_CHAR_NULL"
  by (simp add: jc_select_def jc_is_expected_def)



lemma jc_select_ObjectEnd:
  "jc_select st c = ObjectEnd
   \<longleftrightarrow> jc_is_expected st JC_TOKEN_TYPE_OBJECT_END \<and> c = JC_CHAR_OBJECT_END"
  using expected_not_empty [of st JC_TOKEN_TYPE_OBJECT_END]
  by (auto simp: jc_select_def jc_consts)

lemma jc_select_ArrayEnd:
  "jc_select st c = ArrayEnd
   \<longleftrightarrow> jc_is_expected st JC_TOKEN_TYPE_ARRAY_END \<and> c = JC_CHAR_ARRAY_END"
  using expected_not_empty [of st JC_TOKEN_TYPE_ARRAY_END]
  by (auto simp: jc_select_def jc_consts)

lemma jc_select_Comma:
  "jc_select st c = Comma
   \<longleftrightarrow> jc_is_expected st JC_TOKEN_TYPE_COMMA \<and> c = JC_CHAR_COMMA"
  using expected_not_empty [of st JC_TOKEN_TYPE_COMMA]
  by (auto simp: jc_select_def jc_consts)

lemma jc_select_StringOrFieldName:
  "jc_select st c = StringOrFieldName
   \<longleftrightarrow> jc_is_expected st (JC_TOKEN_TYPE_FIELD_NAME OR JC_TOKEN_TYPE_STRING)
       \<and> c = JC_CHAR_DQUOTE"
  using expected_not_empty [of st "JC_TOKEN_TYPE_FIELD_NAME OR JC_TOKEN_TYPE_STRING"]
  by (auto simp: jc_select_def jc_consts)

section \<open>The end of the input\<close>

text \<open>
  Claim C5. Let \<open>st1\<close> be the state of a call after whitespace has been skipped and
  \<open>c\<close> the current character. If the expected-token-set of \<open>st1\<close> is empty, the call
  returns \<open>JC_RESULT_EOF\<close> when \<open>c\<close> is the null and \<open>JC_RESULT_ERR_GARBAGE\<close>
  otherwise; if the set is not empty and \<open>c\<close> is the null, the call returns
  \<open>JC_RESULT_ERR_UNEXPECTED_EOF\<close>. In both cases the state is \<open>st1\<close> and the token slot
  is untouched.
\<close>

theorem jc_next_token_end_of_input:
  assumes "jc_skip_whitespace st = Some st1" and "source_at st1 (source_pos st1) = Some c"
  shows "(expected_token_types st1 = JC_NO_TOKENS_EXPECTED \<longrightarrow>
            jc_next_token (Some st) token
            = Some ((if c = JC_CHAR_NULL then JC_RESULT_EOF else JC_RESULT_ERR_GARBAGE),
                    Some st1, token))
         \<and> (expected_token_types st1 \<noteq> JC_NO_TOKENS_EXPECTED \<and> c = JC_CHAR_NULL \<longrightarrow>
            jc_next_token (Some st) token = Some (JC_RESULT_ERR_UNEXPECTED_EOF, Some st1, token))"
proof (intro conjI impI)
  assume "expected_token_types st1 = JC_NO_TOKENS_EXPECTED"
  then have "jc_select st1 c = NoTokensExpected" by (simp add: jc_select_NoTokensExpected)
  then show "jc_next_token (Some st) token
             = Some ((if c = JC_CHAR_NULL then JC_RESULT_EOF else JC_RESULT_ERR_GARBAGE),
                     Some st1, token)"
    by (simp add: jc_next_token_produce [OF assms])
next
  assume "expected_token_types st1 \<noteq> JC_NO_TOKENS_EXPECTED \<and> c = JC_CHAR_NULL"
  then have "jc_select st1 c = UnexpectedEof" by (simp add: jc_select_UnexpectedEof)
  then show "jc_next_token (Some st) token
             = Some (JC_RESULT_ERR_UNEXPECTED_EOF, Some st1, token)"
    by (simp add: jc_next_token_produce [OF assms])
qed

theorem jc_next_token_end_of_input_witness:
  "jc_next_token
     (Some \<lparr>source = ''1 '' @ [JC_CHAR_NULL], source_pos = 1,
            nesting_stack = replicate 8 JC_NESTING_TYPE_OBJECT, nesting_level = -1,
            expected_token_types = JC_NO_TOKENS_EXPECTED\<rparr>) None
   = Some (JC_RESULT_EOF,
           Some \<lparr>source = ''1 '' @ [JC_CHAR_NULL], source_pos = 2,
                 nesting_stack = replicate 8 JC_NESTING_TYPE_OBJECT, nesting_level = -1,
                 expected_token_types = JC_NO_TOKENS_EXPECTED\<rparr>, None)
   \<and> jc_next_token
     (Some \<lparr>source = ''[ '' @ [JC_CHAR_NULL], source_pos = 1,
            nesting_stack = JC_NESTING_TYPE_ARRAY # replicate 7 JC_NESTING_TYPE_OBJECT,
            nesting_level = 0,
            expected_token_types = JC_TOKEN_TYPE_VALUE OR JC_TOKEN_TYPE_ARRAY_END\<rparr>) None
   = Some (JC_RESULT_ERR_UNEXPECTED_EOF,
           Some \<lparr>source = ''[ '' @ [JC_CHAR_NULL], source_pos = 2,
                 nesting_stack = JC_NESTING_TYPE_ARRAY # replicate 7 JC_NESTING_TYPE_OBJECT,
                 nesting_level = 0,
                 expected_token_types = JC_TOKEN_TYPE_VALUE OR JC_TOKEN_TYPE_ARRAY_END\<rparr>, None)"
proof -
  let ?a = "\<lparr>source = ''1 '' @ [JC_CHAR_NULL], source_pos = 1,
            nesting_stack = replicate 8 JC_NESTING_TYPE_OBJECT, nesting_level = -1,
            expected_token_types = JC_NO_TOKENS_EXPECTED\<rparr>"
  let ?b = "\<lparr>source = ''[ '' @ [JC_CHAR_NULL], source_pos = 1,
            nesting_stack = JC_NESTING_TYPE_ARRAY # replicate 7 JC_NESTING_TYPE_OBJECT,
            nesting_level = 0,
            expected_token_types = JC_TOKEN_TYPE_VALUE OR JC_TOKEN_TYPE_ARRAY_END\<rparr>"
  have wa: "jc_skip_whitespace ?a = Some (?a\<lparr>source_pos := 2\<rparr>)" by code_simp
  have ca: "source_at (?a\<lparr>source_pos := 2\<rparr>) (source_pos (?a\<lparr>source_pos := 2\<rparr>)) = Some JC_CHAR_NULL"
    by code_simp
  have wb: "jc_skip_whitespace ?b = Some (?b\<lparr>source_pos := 2\<rparr>)" by code_simp
  have cb: "source_at (?b\<lparr>source_pos := 2\<rparr>) (source_pos (?b\<lparr>source_pos := 2\<rparr>)) = Some JC_CHAR_NULL"
    by code_simp
  have eb: "expected_token_types (?b\<lparr>source_pos := 2\<rparr>) \<noteq> JC_NO_TOKENS_EXPECTED"
    by code_simp
  from jc_next_token_end_of_input [OF wa ca, of None]
    jc_next_token_end_of_input [OF wb cb, of None] eb
  show ?thesis by simp
qed

section \<open>Corrupted states\<close>

lemma produce_corrupted:
  assumes "jc_produce st tok c p = Some (r, st', tok')"
  shows "r = JC_RESULT_ERR_CORRUPTED_STATE
         \<longleftrightarrow> (p = ObjectEnd \<or> p = ArrayEnd) \<and> nesting_level st \<le> JC_NO_NESTING_LEVEL"
proof (cases p)
  case ObjectStart
  with assms show ?thesis
    by (auto simp: jc_start_production_def jc_nest_def Let_def split: option.splits if_splits)
next
  case ArrayStart
  with assms show ?thesis
    by (auto simp: jc_start_production_def jc_nest_def Let_def split: option.splits if_splits)
next
  case ObjectEnd
  with assms show ?thesis
    by (auto simp: jc_end_production_def jc_unnest_def jc_advance_source_pos_def
          split: option.splits if_splits)
next
  case ArrayEnd
  with assms show ?thesis
    by (auto simp: jc_end_production_def jc_unnest_def jc_advance_source_pos_def
          split: option.splits if_splits)
next
  case StringOrFieldName
  with assms show ?thesis
    by (auto simp: jc_parse_string_or_field_name_def Let_def split: option.splits if_splits)
next
  case Number
  with assms show ?thesis
    by (auto simp: jc_parse_number_def Let_def split: option.splits)
next
  case LitTrue
  with assms show ?thesis
    by (auto simp: jc_parse_literal_def Let_def split: option.splits bool.splits)
next
  case LitFalse
  with assms show ?thesis
    by (auto simp: jc_parse_literal_def Let_def split: option.splits bool.splits)
next
  case LitNull
  with assms show ?thesis
    by (auto simp: jc_parse_literal_def Let_def split: option.splits bool.splits)
qed (use assms in \<open>auto split: option.splits if_splits\<close>)

text \<open>
  Claim C4 says that every call first validates the state pointer and the bounds of the
  nesting depth. The source validates the pointer only: with a depth of 100 the call
  below parses the literal and returns \<open>JC_RESULT_OK\<close>.
\<close>

theorem jc_next_token_corrupted_state_counterexample:
  "jc_next_token
     (Some \<lparr>source = ''null'' @ [JC_CHAR_NULL], source_pos = 0,
            nesting_stack = replicate 8 JC_NESTING_TYPE_OBJECT, nesting_level = 100,
            expected_token_types = JC_TOKEN_TYPE_VALUE\<rparr>) (Some zero_token)
   = Some (JC_RESULT_OK,
           Some \<lparr>source = ''null'' @ [JC_CHAR_NULL], source_pos = 4,
                 nesting_stack = replicate 8 JC_NESTING_TYPE_OBJECT, nesting_level = 100,
                 expected_token_types = JC_NO_TOKENS_EXPECTED\<rparr>,
           Some \<lparr>tok_type = JC_TOKEN_TYPE_NULL, tok_start = 0, tok_end = 4\<rparr>)"
  by code_simp

text \<open>
  Claim C4, amended. A call with a null state pointer returns
  \<open>JC_RESULT_ERR_CORRUPTED_STATE\<close> before anything is read. A call with a state returns
  that code exactly when, after whitespace, it takes the object-end or the array-end
  production while the nesting depth is \<open>-1\<close> or less; the depth is examined nowhere
  else.
\<close>

theorem jc_next_token_corrupted_state:
  "jc_next_token None token = Some (JC_RESULT_ERR_CORRUPTED_STATE, None, token)
   \<and> (\<forall>st r so' token'.
         jc_next_token (Some st) token = Some (r, so', token') \<longrightarrow>
         (r = JC_RESULT_ERR_CORRUPTED_STATE \<longleftrightarrow>
            (\<exists>st1 c. jc_skip_whitespace st = Some st1
               \<and> source_at st1 (source_pos st1) = Some c
               \<and> (jc_is_expected st1 JC_TOKEN_TYPE_OBJECT_END \<and> c = JC_CHAR_OBJECT_END
                   \<or> jc_is_expected st1 JC_TOKEN_TYPE_ARRAY_END \<and> c = JC_CHAR_ARRAY_END)
               \<and> nesting_level st1 \<le> JC_NO_NESTING_LEVEL)))"
proof (intro conjI allI impI)
  show "jc_next_token None token = Some (JC_RESULT_ERR_CORRUPTED_STATE, None, token)"
    by (simp add: jc_next_token_def)
next
  fix st r so' token'
  assume n: "jc_next_token (Some st) token = Some (r, so', token')"
  then obtain st1 c where ws: "jc_skip_whitespace st = Some st1"
    and c: "source_at st1 (source_pos st1) = Some c"
    by (auto simp: jc_next_token_def split: option.splits)
  from n obtain st' where
    p: "jc_produce st1 token c (jc_select st1 c) = Some (r, st', token')"
    by (auto simp: jc_next_token_produce [OF ws c])
  from produce_corrupted [OF p] ws c
  show "r = JC_RESULT_ERR_CORRUPTED_STATE \<longleftrightarrow>
          (\<exists>st1 c. jc_skip_whitespace st = Some st1
             \<and> source_at st1 (source_pos st1) = Some c
             \<and> (jc_is_expected st1 JC_TOKEN_TYPE_OBJECT_END \<and> c = JC_CHAR_OBJECT_END
                 \<or> jc_is_expected st1 JC_TOKEN_TYPE_ARRAY_END \<and> c = JC_CHAR_ARRAY_END)
             \<and> nesting_level st1 \<le> JC_NO_NESTING_LEVEL)"
    by (auto simp: jc_select_ObjectEnd jc_select_ArrayEnd)
qed

theorem jc_next_token_corrupted_state_witness:
  "jc_next_token
     (Some \<lparr>source = '' ]'' @ [JC_CHAR_NULL], source_pos = 0,
            nesting_stack = replicate 8 JC_NESTING_TYPE_OBJECT, nesting_level = -1,
            expected_token_types = JC_TOKEN_TYPE_COMMA OR JC_TOKEN_TYPE_ARRAY_END\<rparr>) None
   = Some (JC_RESULT_ERR_CORRUPTED_STATE,
           Some \<lparr>source = '' ]'' @ [JC_CHAR_NULL], source_pos = 2,
                 nesting_stack = replicate 8 JC_NESTING_TYPE_OBJECT, nesting_level = -1,
                 expected_token_types = JC_TOKEN_TYPE_COMMA OR JC_TOKEN_TYPE_ARRAY_END\<rparr>,
           None)
   \<and> jc_skip_whitespace
       \<lparr>source = '' ]'' @ [JC_CHAR_NULL], source_pos = 0,
        nesting_stack = replicate 8 JC_NESTING_TYPE_OBJECT, nesting_level = -1,
        expected_token_types = JC_TOKEN_TYPE_COMMA OR JC_TOKEN_TYPE_ARRAY_END\<rparr>
     = Some \<lparr>source = '' ]'' @ [JC_CHAR_NULL], source_pos = 1,
             nesting_stack = replicate 8 JC_NESTING_TYPE_OBJECT, nesting_level = -1,
             expected_token_types = JC_TOKEN_TYPE_COMMA OR JC_TOKEN_TYPE_ARRAY_END\<rparr>"
proof -
  let ?s = "\<lparr>source = '' ]'' @ [JC_CHAR_NULL], source_pos = 0,
            nesting_stack = replicate 8 JC_NESTING_TYPE_OBJECT, nesting_level = -1,
            expected_token_types = JC_TOKEN_TYPE_COMMA OR JC_TOKEN_TYPE_ARRAY_END\<rparr>"
  let ?s1 = "?s\<lparr>source_pos := 1\<rparr>"
  let ?s2 = "?s\<lparr>source_pos := 2\<rparr>"
  have n: "jc_next_token (Some ?s) None = Some (JC_RESULT_ERR_CORRUPTED_STATE, Some ?s2, None)"
    by code_simp
  have ws: "jc_skip_whitespace ?s = Some ?s1" by code_simp
  from jc_next_token_corrupted_state [of None] n
  have "\<exists>st1 c. jc_skip_whitespace ?s = Some st1
           \<and> source_at st1 (source_pos st1) = Some c
           \<and> (jc_is_expected st1 JC_TOKEN_TYPE_OBJECT_END \<and> c = JC_CHAR_OBJECT_END
               \<or> jc_is_expected st1 JC_TOKEN_TYPE_ARRAY_END \<and> c = JC_CHAR_ARRAY_END)
           \<and> nesting_level st1 \<le> JC_NO_NESTING_LEVEL"
    by blast
  with ws n show ?thesis by simp
qed

section \<open>The nesting limit\<close>




section \<open>Commas\<close>

lemma after_comma_in_frame:
  assumes "JC_NO_NESTING_LEVEL < nesting_level st" "nesting_level st < JC_MAX_NESTING_LEVEL"
    and "nesting_stack_at st (nesting_level st) = Some frame"
  shows "jc_get_token_type_after_comma_of_current_nesting (jc_advance_source_pos st n)
         = Some (if frame = JC_NESTING_TYPE_OBJECT then JC_TOKEN_TYPE_FIELD_NAME
                 else JC_TOKEN_TYPE_VALUE)"
  using assms
  by (auto simp: jc_get_token_type_after_comma_of_current_nesting_def
        jc_advance_source_pos_def nesting_stack_at_def split: if_splits)

lemma expected_set_masks:
  "expected_token_types st = JC_TOKEN_TYPE_FIELD_NAME
     \<Longrightarrow> expected_set st = {JC_TOKEN_TYPE_FIELD_NAME}"
  "expected_token_types st = JC_TOKEN_TYPE_VALUE
     \<Longrightarrow> expected_set st =
           {JC_TOKEN_TYPE_NUMBER, JC_TOKEN_TYPE_STRING, JC_TOKEN_TYPE_TRUE,
            JC_TOKEN_TYPE_FALSE, JC_TOKEN_TYPE_NULL, JC_TOKEN_TYPE_ARRAY_START,
            JC_TOKEN_TYPE_OBJECT_START}"
  by (auto simp: expected_set_def all_token_types_def jc_is_expected_def jc_consts)

text \<open>
  Claim C7. When the comma production is taken inside a frame, the call returns
  \<open>JC_RESULT_OK\<close> with the comma token, and the expected-token-set becomes the field
  name alone if the innermost frame is an object and the any-value set if it is an
  array. Consequently, on the input \<open>[1,]\<close> the calls return the array start, the
  number at offsets 1 to 2 and the comma at offsets 2 to 3, and the call at \<open>]\<close>
  returns \<open>JC_RESULT_ERR_UNEXPECTED_TOKEN\<close>; the slot still holds the comma token.
\<close>

theorem jc_comma_production:
  "(\<forall>st st1 frame token.
      jc_skip_whitespace st = Some st1
      \<and> source_at st1 (source_pos st1) = Some JC_CHAR_COMMA
      \<and> jc_is_expected st1 JC_TOKEN_TYPE_COMMA
      \<and> JC_NO_NESTING_LEVEL < nesting_level st1
      \<and> nesting_level st1 < JC_MAX_NESTING_LEVEL
      \<and> nesting_stack_at st1 (nesting_level st1) = Some frame
      \<longrightarrow> (\<exists>st'. jc_next_token (Some st) token
                   = Some (JC_RESULT_OK, Some st',
                           jc_make_token st1 token JC_TOKEN_TYPE_COMMA 1)
             \<and> st' = st1\<lparr>source_pos := source_pos st1 + 1,
                          expected_token_types :=
                            (if frame = JC_NESTING_TYPE_OBJECT
                             then JC_TOKEN_TYPE_FIELD_NAME else JC_TOKEN_TYPE_VALUE)\<rparr>
             \<and> expected_set st' =
                 (if frame = JC_NESTING_TYPE_OBJECT then {JC_TOKEN_TYPE_FIELD_NAME}
                  else {JC_TOKEN_TYPE_NUMBER, JC_TOKEN_TYPE_STRING, JC_TOKEN_TYPE_TRUE,
                        JC_TOKEN_TYPE_FALSE, JC_TOKEN_TYPE_NULL, JC_TOKEN_TYPE_ARRAY_START,
                        JC_TOKEN_TYPE_OBJECT_START})))
   \<and> jc_tokenize 4 (jc_start (''[1,]'' @ [JC_CHAR_NULL])) (Some zero_token)
     = Some [(JC_RESULT_OK,
              Some \<lparr>tok_type = JC_TOKEN_TYPE_ARRAY_START, tok_start = 0, tok_end = 1\<rparr>),
             (JC_RESULT_OK,
              Some \<lparr>tok_type = JC_TOKEN_TYPE_NUMBER, tok_start = 1, tok_end = 2\<rparr>),
             (JC_RESULT_OK,
              Some \<lparr>tok_type = JC_TOKEN_TYPE_COMMA, tok_start = 2, tok_end = 3\<rparr>),
             (JC_RESULT_ERR_UNEXPECTED_TOKEN,
              Some \<lparr>tok_type = JC_TOKEN_TYPE_COMMA, tok_start = 2, tok_end = 3\<rparr>)]"
proof (intro conjI allI impI)
  fix st st1 frame token
  assume a: "jc_skip_whitespace st = Some st1
      \<and> source_at st1 (source_pos st1) = Some JC_CHAR_COMMA
      \<and> jc_is_expected st1 JC_TOKEN_TYPE_COMMA
      \<and> JC_NO_NESTING_LEVEL < nesting_level st1
      \<and> nesting_level st1 < JC_MAX_NESTING_LEVEL
      \<and> nesting_stack_at st1 (nesting_level st1) = Some frame"
  let ?e = "if frame = JC_NESTING_TYPE_OBJECT
            then JC_TOKEN_TYPE_FIELD_NAME else JC_TOKEN_TYPE_VALUE"
  let ?st' = "st1\<lparr>source_pos := source_pos st1 + 1, expected_token_types := ?e\<rparr>"
  from a have sel: "jc_select st1 JC_CHAR_COMMA = Comma" by (simp add: jc_select_Comma)
  from a have ws: "jc_skip_whitespace st = Some st1"
    and c: "source_at st1 (source_pos st1) = Some JC_CHAR_COMMA" by simp_all
  from a have ac: "jc_get_token_type_after_comma_of_current_nesting
                     (jc_advance_source_pos st1 1) = Some ?e"
    by (intro after_comma_in_frame) simp_all
  have "jc_next_token (Some st) token
        = Some (JC_RESULT_OK, Some (jc_expect_next (jc_advance_source_pos st1 1) ?e),
                jc_make_token st1 token JC_TOKEN_TYPE_COMMA 1)"
    by (simp add: jc_next_token_produce [OF ws c] sel ac del: One_nat_def)
  then have "jc_next_token (Some st) token
        = Some (JC_RESULT_OK, Some ?st', jc_make_token st1 token JC_TOKEN_TYPE_COMMA 1)"
    by (simp add: jc_expect_next_def jc_advance_source_pos_def)
  moreover have "expected_set ?st' =
                 (if frame = JC_NESTING_TYPE_OBJECT then {JC_TOKEN_TYPE_FIELD_NAME}
                  else {JC_TOKEN_TYPE_NUMBER, JC_TOKEN_TYPE_STRING, JC_TOKEN_TYPE_TRUE,
                        JC_TOKEN_TYPE_FALSE, JC_TOKEN_TYPE_NULL, JC_TOKEN_TYPE_ARRAY_START,
                        JC_TOKEN_TYPE_OBJECT_START})"
    by (simp add: expected_set_masks)
  ultimately show "\<exists>st'. jc_next_token (Some st) token
                   = Some (JC_RESULT_OK, Some st',
                           jc_make_token st1 token JC_TOKEN_TYPE_COMMA 1)
             \<and> st' = st1\<lparr>source_pos := source_pos st1 + 1,
                          expected_token_types :=
                            (if frame = JC_NESTING_TYPE_OBJECT
                             then JC_TOKEN_TYPE_FIELD_NAME else JC_TOKEN_TYPE_VALUE)\<rparr>
             \<and> expected_set st' =
                 (if frame = JC_NESTING_TYPE_OBJECT then {JC_TOKEN_TYPE_FIELD_NAME}
                  else {JC_TOKEN_TYPE_NUMBER, JC_TOKEN_TYPE_STRING, JC_TOKEN_TYPE_TRUE,
                        JC_TOKEN_TYPE_FALSE, JC_TOKEN_TYPE_NULL, JC_TOKEN_TYPE_ARRAY_START,
                        JC_TOKEN_TYPE_OBJECT_START})"
    by blast
next
  show "jc_tokenize 4 (jc_start (''[1,]'' @ [JC_CHAR_NULL])) (Some zero_token)
     = Some [(JC_RESULT_OK,
              Some \<lparr>tok_type = JC_TOKEN_TYPE_ARRAY_START, tok_start = 0, tok_end = 1\<rparr>),
             (JC_RESULT_OK,
              Some \<lparr>tok_type = JC_TOKEN_TYPE_NUMBER, tok_start = 1, tok_end = 2\<rparr>),
             (JC_RESULT_OK,
              Some \<lparr>tok_type = JC_TOKEN_TYPE_COMMA, tok_start = 2, tok_end = 3\<rparr>),
             (JC_RESULT_ERR_UNEXPECTED_TOKEN,
              Some \<lparr>tok_type = JC_TOKEN_TYPE_COMMA, tok_start = 2, tok_end = 3\<rparr>)]"
    by code_simp
qed

theorem jc_comma_production_witness:
  "jc_next_token
     (Some \<lparr>source = ''{\"a\":1 ,\"b\":2}'' @ [JC_CHAR_NULL], source_pos = 6,
            nesting_stack = replicate 8 JC_NESTING_TYPE_OBJECT, nesting_level = 0,
            expected_token_types = JC_TOKEN_TYPE_COMMA OR JC_TOKEN_TYPE_OBJECT_END\<rparr>)
     (Some zero_token)
   = Some (JC_RESULT_OK,
           Some \<lparr>source = ''{\"a\":1 ,\"b\":2}'' @ [JC_CHAR_NULL], source_pos = 8,
                 nesting_stack = replicate 8 JC_NESTING_TYPE_OBJECT, nesting_level = 0,
                 expected_token_types = JC_TOKEN_TYPE_FIELD_NAME\<rparr>,
           Some \<lparr>tok_type = JC_TOKEN_TYPE_COMMA, tok_start = 7, tok_end = 8\<rparr>)"
proof -
  let ?s = "\<lparr>source = ''{\"a\":1 ,\"b\":2}'' @ [JC_CHAR_NULL], source_pos = 6,
            nesting_stack = replicate 8 JC_NESTING_TYPE_OBJECT, nesting_level = 0,
            expected_token_types = JC_TOKEN_TYPE_COMMA OR JC_TOKEN_TYPE_OBJECT_END\<rparr>"
  let ?s1 = "?s\<lparr>source_pos := 7\<rparr>"
  have ws: "jc_skip_whitespace ?s = Some ?s1" by code_simp
  have c: "source_at ?s1 (source_pos ?s1) = Some JC_CHAR_COMMA" by code_simp
  have e: "jc_is_expected ?s1 JC_TOKEN_TYPE_COMMA" by code_simp
  have f: "nesting_stack_at ?s1 (nesting_level ?s1) = Some JC_NESTING_TYPE_OBJECT" by code_simp
  have l: "JC_NO_NESTING_LEVEL < nesting_level ?s1" "nesting_level ?s1 < JC_MAX_NESTING_LEVEL"
    by (simp_all add: jc_consts)
  from jc_comma_production ws c e f l
  have "\<exists>st'. jc_next_token (Some ?s) (Some zero_token)
                   = Some (JC_RESULT_OK, Some st',
                           jc_make_token ?s1 (Some zero_token) JC_TOKEN_TYPE_COMMA 1)
             \<and> st' = ?s1\<lparr>source_pos := source_pos ?s1 + 1,
                          expected_token_types :=
                            (if JC_NESTING_TYPE_OBJECT = JC_NESTING_TYPE_OBJECT
                             then JC_TOKEN_TYPE_FIELD_NAME else JC_TOKEN_TYPE_VALUE)\<rparr>"
    by blast
  then show ?thesis by (simp add: jc_make_token_def zero_token_def)
qed

section \<open>Strings and field names\<close>

lemma escaped_run_plain:
  assumes "c \<noteq> JC_CHAR_DQUOTE" "c \<noteq> JC_CHAR_NULL" "c \<noteq> JC_CHAR_BACKSLASH"
  shows "escaped_run (c # cs) = escaped_run cs"
  using assms by (cases cs) simp_all

lemma escaped_run_escape:
  "escaped_run (JC_CHAR_BACKSLASH # cs)
   \<longleftrightarrow> (\<exists>d ds. cs = d # ds \<and> d \<noteq> JC_CHAR_NULL \<and> escaped_run ds)"
  by (cases cs) (simp_all add: jc_consts)

lemma escaped_run_Cons:
  "escaped_run (c # cs)
   \<longleftrightarrow> (if c = JC_CHAR_BACKSLASH
        then \<exists>d ds. cs = d # ds \<and> d \<noteq> JC_CHAR_NULL \<and> escaped_run ds
        else c \<noteq> JC_CHAR_DQUOTE \<and> c \<noteq> JC_CHAR_NULL \<and> escaped_run cs)"
  by (cases cs) (auto simp: jc_consts)

lemma take_drop_Cons:
  assumes "i < j" "j \<le> length mem"
  shows "take (j - i) (drop i mem) = mem ! i # take (j - (i + 1)) (drop (i + 1) mem)"
proof -
  from assms have "i < length mem" by simp
  then have "drop i mem = mem ! i # drop (i + 1) mem" by (simp add: Cons_nth_drop_Suc)
  moreover from assms have "j - i = Suc (j - (i + 1))" by simp
  ultimately show ?thesis by simp
qed

lemma jc_search_dquote_found:
  "jc_search_dquote mem i = Some (Some j)
   \<longleftrightarrow> i \<le> j \<and> j < length mem \<and> mem ! j = JC_CHAR_DQUOTE
       \<and> escaped_run (take (j - i) (drop i mem))"
proof (induction mem i rule: jc_search_dquote.induct)
  case (1 mem c)
  note simps = jc_search_dquote.simps [of mem c]
  show ?case
  proof (cases "c < length mem")
    case False
    then show ?thesis by (simp add: simps)
  next
    case inb: True
    show ?thesis
    proof (cases "mem ! c = JC_CHAR_DQUOTE")
      case True
      show ?thesis
      proof (cases "j = c")
        case True
        with inb \<open>mem ! c = JC_CHAR_DQUOTE\<close> show ?thesis by (simp add: simps)
      next
        case False
        have "\<not> escaped_run (take (j - c) (drop c mem))" if "c < j" "j < length mem"
          using that True by (simp add: take_drop_Cons escaped_run_Cons jc_consts)
        with inb True False show ?thesis by (auto simp: simps)
      qed
    next
      case nq: False
      show ?thesis
      proof (cases "mem ! c = JC_CHAR_NULL")
        case True
        have "\<not> escaped_run (take (j - c) (drop c mem))" if "c < j" "j < length mem"
          using that True by (simp add: take_drop_Cons escaped_run_Cons jc_consts)
        moreover have "j \<noteq> c" if "mem ! j = JC_CHAR_DQUOTE" using that nq by auto
        ultimately show ?thesis using inb nq True by (auto simp: simps)
      next
        case nn: False
        have jc: "j \<noteq> c" if "mem ! j = JC_CHAR_DQUOTE" using that nq by auto
        show ?thesis
        proof (cases "mem ! c = JC_CHAR_BACKSLASH")
          case False
          have "jc_search_dquote mem c = jc_search_dquote mem (c + 1)"
            using inb nq nn False by (simp add: simps)
          also have "\<dots> = Some (Some j) \<longleftrightarrow> c + 1 \<le> j \<and> j < length mem \<and> mem ! j = JC_CHAR_DQUOTE
                 \<and> escaped_run (take (j - (c + 1)) (drop (c + 1) mem))"
            using "1.IH"(3) [OF inb nq nn False] .
          finally show ?thesis
            using jc inb nq nn False
            by (auto simp: take_drop_Cons escaped_run_plain)
        next
          case bs: True
          show ?thesis
          proof (cases "c + 1 < length mem")
            case False
            have "\<not> escaped_run (take (j - c) (drop c mem))" if "c < j" "j < length mem"
              using that False by simp
            with inb nq nn bs False jc show ?thesis by (auto simp: simps)
          next
            case inb1: True
            show ?thesis
            proof (cases "mem ! (c + 1) \<noteq> JC_CHAR_NULL")
              case True
              have "jc_search_dquote mem c = jc_search_dquote mem (c + 2)"
                using inb nq nn bs inb1 True by (simp add: simps)
              also have "\<dots> = Some (Some j) \<longleftrightarrow> c + 2 \<le> j \<and> j < length mem
                     \<and> mem ! j = JC_CHAR_DQUOTE
                     \<and> escaped_run (take (j - (c + 2)) (drop (c + 2) mem))"
                using "1.IH"(1) [OF inb nq nn bs inb1 True] .
              finally have eq: "jc_search_dquote mem c = Some (Some j) \<longleftrightarrow> c + 2 \<le> j
                     \<and> j < length mem \<and> mem ! j = JC_CHAR_DQUOTE
                     \<and> escaped_run (take (j - (c + 2)) (drop (c + 2) mem))" .
              have body: "escaped_run (take (j - c) (drop c mem))
                          \<longleftrightarrow> c + 2 \<le> j \<and> escaped_run (take (j - (c + 2)) (drop (c + 2) mem))"
                if "c < j" "j < length mem"
              proof (cases "j = c + 1")
                case True
                then have "take (j - c) (drop c mem) = [mem ! c]"
                  using that take_drop_Cons [of c j mem] by simp
                with bs True show ?thesis by (simp add: jc_consts)
              next
                case False
                with that have "c + 1 < j" by simp
                with that have "take (j - c) (drop c mem)
                      = mem ! c # mem ! (c + 1) # take (j - (c + 2)) (drop (c + 2) mem)"
                  using take_drop_Cons [of c j mem] take_drop_Cons [of "c + 1" j mem]
                  by (simp add: numeral_2_eq_2)
                with bs True \<open>c + 1 < j\<close> show ?thesis by (simp add: escaped_run_escape)
              qed
              show ?thesis
              proof
                assume "jc_search_dquote mem c = Some (Some j)"
                with eq body show "c \<le> j \<and> j < length mem \<and> mem ! j = JC_CHAR_DQUOTE
                     \<and> escaped_run (take (j - c) (drop c mem))"
                  by auto
              next
                assume a: "c \<le> j \<and> j < length mem \<and> mem ! j = JC_CHAR_DQUOTE
                     \<and> escaped_run (take (j - c) (drop c mem))"
                with jc have "c < j" by (simp add: le_neq_implies_less)
                with a eq body show "jc_search_dquote mem c = Some (Some j)" by simp
              qed
            next
              case False
              then have nul: "mem ! (c + 1) = JC_CHAR_NULL" by simp
              have "jc_search_dquote mem c = jc_search_dquote mem (c + 1)"
                using inb nq nn bs inb1 nul by (simp add: simps)
              also have "\<dots> = Some None"
                using inb1 nul
                by (subst jc_search_dquote.simps) (simp add: jc_consts)
              finally have l: "jc_search_dquote mem c \<noteq> Some (Some j)" by simp
              have "\<not> escaped_run (take (j - c) (drop c mem))" if "c + 1 < j" "j < length mem"
              proof -
                from that have "take (j - c) (drop c mem)
                      = mem ! c # mem ! (c + 1) # take (j - (c + 2)) (drop (c + 2) mem)"
                  using take_drop_Cons [of c j mem] take_drop_Cons [of "c + 1" j mem]
                  by (simp add: numeral_2_eq_2)
                with bs nul show ?thesis by (simp add: escaped_run_escape)
              qed
              moreover have "j \<noteq> c + 1" if "mem ! j = JC_CHAR_DQUOTE"
                using that nul by (auto simp: jc_consts)
              ultimately have "\<not> (c \<le> j \<and> j < length mem \<and> mem ! j = JC_CHAR_DQUOTE
                     \<and> escaped_run (take (j - c) (drop c mem)))"
                using jc by (metis Suc_eq_plus1 Suc_lessI le_neq_implies_less)
              with l show ?thesis by simp
            qed
          qed
        qed
      qed
    qed
  qed
qed

lemma jc_search_dquote_terminated:
  assumes "i \<le> k" "k < length mem" "mem ! k = JC_CHAR_NULL"
  shows "jc_search_dquote mem i \<noteq> None"
  using assms
proof (induction mem i rule: jc_search_dquote.induct)
  case (1 mem c)
  note simps = jc_search_dquote.simps [of mem c]
  from "1.prems" have inb: "c < length mem" by simp
  show ?case
  proof (cases "mem ! c = JC_CHAR_DQUOTE \<or> mem ! c = JC_CHAR_NULL")
    case True
    with inb show ?thesis by (auto simp: simps)
  next
    case False
    then have nq: "mem ! c \<noteq> JC_CHAR_DQUOTE" and nn: "mem ! c \<noteq> JC_CHAR_NULL" by simp_all
    from nn "1.prems" have k: "c + 1 \<le> k" by (cases "k = c") auto
    with "1.prems" have inb1: "c + 1 < length mem" by simp
    show ?thesis
    proof (cases "mem ! c = JC_CHAR_BACKSLASH")
      case False
      from "1.IH"(3) [OF inb nq nn False k "1.prems"(2,3)] inb nq nn False
      show ?thesis by (simp add: simps)
    next
      case bs: True
      show ?thesis
      proof (cases "mem ! (c + 1) \<noteq> JC_CHAR_NULL")
        case True
        with k "1.prems" have "c + 2 \<le> k" by (cases "k = c + 1") auto
        from "1.IH"(1) [OF inb nq nn bs inb1 True this "1.prems"(2,3)] inb nq nn bs inb1 True
        show ?thesis by (simp add: simps)
      next
        case False
        from "1.IH"(2) [OF inb nq nn bs inb1 False k "1.prems"(2,3)] inb nq nn bs inb1 False
        show ?thesis by (simp add: simps)
      qed
    qed
  qed
qed

lemma end_token_type_pos [simp]:
  "jc_get_end_token_type_of_current_nesting (st\<lparr>source_pos := p\<rparr>)
   = jc_get_end_token_type_of_current_nesting st"
  by (simp add: jc_get_end_token_type_of_current_nesting_def nesting_stack_at_def)

lemma end_token_type_total:
  assumes "length (nesting_stack st) = nat JC_MAX_NESTING_LEVEL"
  shows "\<exists>e. jc_get_end_token_type_of_current_nesting st = Some e"
  using assms
  by (auto simp: jc_get_end_token_type_of_current_nesting_def nesting_stack_at_def jc_consts)

text \<open>
  Claim C6. Let the current character after whitespace, at offset \<open>p\<close>, be a double
  quote while a string or a field name is expected. A closing quote is a double quote at
  an offset \<open>j\<close> beyond \<open>p\<close> such that the characters between the two quotes are a
  sequence of two-character escapes (a backslash and any character but the null) and of
  plain characters (neither quote, nor backslash, nor null). If there is a closing
  quote at \<open>j\<close>, the call returns \<open>JC_RESULT_OK\<close>; the token spans the offsets from
  \<open>p + 1\<close> to \<open>j\<close>, both quotes excluded, its kind is the field name if the field
  name is expected and the string otherwise, and the position is \<open>j + 1\<close>. If the
  buffer holds a null beyond \<open>p\<close> and there is no closing quote, the call returns
  \<open>JC_RESULT_ERR_UNEXPECTED_EOF\<close> and changes neither the state nor the token slot.
\<close>

theorem jc_string_production:
  assumes "jc_skip_whitespace st = Some st1"
    and "source_at st1 (source_pos st1) = Some JC_CHAR_DQUOTE"
    and "jc_is_expected st1 (JC_TOKEN_TYPE_FIELD_NAME OR JC_TOKEN_TYPE_STRING)"
    and "length (nesting_stack st1) = nat JC_MAX_NESTING_LEVEL"
  shows "(\<forall>j. source_pos st1 < j \<and> j < length (source st1)
              \<and> source st1 ! j = JC_CHAR_DQUOTE
              \<and> escaped_run (take (j - (source_pos st1 + 1))
                               (drop (source_pos st1 + 1) (source st1)))
            \<longrightarrow> (\<exists>e. jc_next_token (Some st) token
                      = Some (JC_RESULT_OK,
                              Some (st1\<lparr>source_pos := j + 1, expected_token_types := e\<rparr>),
                              map_option
                                (\<lambda>t. t\<lparr>tok_type :=
                                          (if jc_is_expected st1 JC_TOKEN_TYPE_FIELD_NAME
                                           then JC_TOKEN_TYPE_FIELD_NAME
                                           else JC_TOKEN_TYPE_STRING),
                                        tok_start := source_pos st1 + 1, tok_end := j\<rparr>)
                                token)
                    \<and> (if jc_is_expected st1 JC_TOKEN_TYPE_FIELD_NAME
                       then e = JC_TOKEN_TYPE_COLON
                       else jc_get_end_token_type_of_current_nesting st1 = Some e)))
         \<and> ((\<exists>k. source_pos st1 < k \<and> k < length (source st1)
                  \<and> source st1 ! k = JC_CHAR_NULL)
            \<and> (\<forall>j. \<not> (source_pos st1 < j \<and> j < length (source st1)
                        \<and> source st1 ! j = JC_CHAR_DQUOTE
                        \<and> escaped_run (take (j - (source_pos st1 + 1))
                                         (drop (source_pos st1 + 1) (source st1)))))
            \<longrightarrow> jc_next_token (Some st) token
                = Some (JC_RESULT_ERR_UNEXPECTED_EOF, Some st1, token))"
proof -
  let ?p = "source_pos st1" and ?mem = "source st1"
  have sel: "jc_select st1 JC_CHAR_DQUOTE = StringOrFieldName"
    using assms(3) by (simp add: jc_select_StringOrFieldName)
  have nx: "jc_next_token (Some st) token
            = map_option (\<lambda>(r, s, t). (r, Some s, t)) (jc_parse_string_or_field_name st1 token)"
    by (simp add: jc_next_token_produce [OF assms(1,2)] sel)
  have found: "\<exists>e. jc_next_token (Some st) token
                  = Some (JC_RESULT_OK,
                          Some (st1\<lparr>source_pos := j + 1, expected_token_types := e\<rparr>),
                          map_option
                            (\<lambda>t. t\<lparr>tok_type :=
                                      (if jc_is_expected st1 JC_TOKEN_TYPE_FIELD_NAME
                                       then JC_TOKEN_TYPE_FIELD_NAME
                                       else JC_TOKEN_TYPE_STRING),
                                    tok_start := ?p + 1, tok_end := j\<rparr>)
                            token)
                \<and> (if jc_is_expected st1 JC_TOKEN_TYPE_FIELD_NAME
                   then e = JC_TOKEN_TYPE_COLON
                   else jc_get_end_token_type_of_current_nesting st1 = Some e)"
    if j: "?p < j \<and> j < length ?mem \<and> ?mem ! j = JC_CHAR_DQUOTE
           \<and> escaped_run (take (j - (?p + 1)) (drop (?p + 1) ?mem))" for j
  proof -
    from j have s: "jc_search_dquote ?mem (jc_current_source st1 + 1) = Some (Some j)"
      by (simp add: jc_search_dquote_found jc_current_source_def)
    from j have pj: "Suc (?p + (j - Suc ?p)) = j" by simp
    from end_token_type_total [OF assms(4)] obtain e0 where
      e0: "jc_get_end_token_type_of_current_nesting st1 = Some e0" ..
    show ?thesis
    proof (cases "jc_is_expected st1 JC_TOKEN_TYPE_FIELD_NAME")
      case True
      with s pj show ?thesis
        by (simp add: nx jc_parse_string_or_field_name_def Let_def jc_current_source_def
              jc_advance_source_pos_def jc_expect_next_def jc_make_token_def
              split: option.split)
    next
      case False
      with s pj e0 show ?thesis
        by (simp add: nx jc_parse_string_or_field_name_def Let_def jc_current_source_def
              jc_advance_source_pos_def jc_expect_next_def jc_make_token_def jc_consts
              split: option.split)
    qed
  qed
  have missing: "jc_next_token (Some st) token
                 = Some (JC_RESULT_ERR_UNEXPECTED_EOF, Some st1, token)"
    if k: "\<exists>k. ?p < k \<and> k < length ?mem \<and> ?mem ! k = JC_CHAR_NULL"
      and nj: "\<forall>j. \<not> (?p < j \<and> j < length ?mem \<and> ?mem ! j = JC_CHAR_DQUOTE
                      \<and> escaped_run (take (j - (?p + 1)) (drop (?p + 1) ?mem)))"
  proof -
    from k obtain k where "?p + 1 \<le> k" "k < length ?mem" "?mem ! k = JC_CHAR_NULL"
      by (auto simp: Suc_le_eq)
    then have "jc_search_dquote ?mem (?p + 1) \<noteq> None" by (rule jc_search_dquote_terminated)
    moreover have "jc_search_dquote ?mem (?p + 1) \<noteq> Some (Some j)" for j
      using nj by (auto simp: jc_search_dquote_found)
    ultimately have "jc_search_dquote ?mem (?p + 1) = Some None"
      by (cases "jc_search_dquote ?mem (?p + 1)") auto
    then show ?thesis
      by (simp add: nx jc_parse_string_or_field_name_def jc_current_source_def)
  qed
  from found missing show ?thesis by blast
qed

theorem jc_string_production_witness:
  "jc_next_token
     (Some \<lparr>source = [JC_CHAR_DQUOTE, CHR ''a'', JC_CHAR_BACKSLASH, JC_CHAR_DQUOTE, CHR ''b'',
                      JC_CHAR_DQUOTE, JC_CHAR_NULL],
            source_pos = 0, nesting_stack = replicate 8 JC_NESTING_TYPE_OBJECT,
            nesting_level = -1, expected_token_types = JC_TOKEN_TYPE_VALUE\<rparr>)
     (Some zero_token)
   = Some (JC_RESULT_OK,
           Some \<lparr>source = [JC_CHAR_DQUOTE, CHR ''a'', JC_CHAR_BACKSLASH, JC_CHAR_DQUOTE,
                            CHR ''b'', JC_CHAR_DQUOTE, JC_CHAR_NULL],
                 source_pos = 6, nesting_stack = replicate 8 JC_NESTING_TYPE_OBJECT,
                 nesting_level = -1, expected_token_types = JC_NO_TOKENS_EXPECTED\<rparr>,
           Some \<lparr>tok_type = JC_TOKEN_TYPE_STRING, tok_start = 1, tok_end = 5\<rparr>)
   \<and> jc_next_token
     (Some \<lparr>source = [JC_CHAR_DQUOTE, CHR ''a'', CHR ''b'', CHR ''c'', JC_CHAR_NULL],
            source_pos = 0, nesting_stack = replicate 8 JC_NESTING_TYPE_OBJECT,
            nesting_level = -1, expected_token_types = JC_TOKEN_TYPE_VALUE\<rparr>)
     (Some zero_token)
   = Some (JC_RESULT_ERR_UNEXPECTED_EOF,
           Some \<lparr>source = [JC_CHAR_DQUOTE, CHR ''a'', CHR ''b'', CHR ''c'', JC_CHAR_NULL],
                 source_pos = 0, nesting_stack = replicate 8 JC_NESTING_TYPE_OBJECT,
                 nesting_level = -1, expected_token_types = JC_TOKEN_TYPE_VALUE\<rparr>,
           Some zero_token)"
proof -
  let ?m = "[JC_CHAR_DQUOTE, CHR ''a'', JC_CHAR_BACKSLASH, JC_CHAR_DQUOTE, CHR ''b'',
             JC_CHAR_DQUOTE, JC_CHAR_NULL]"
  let ?a = "\<lparr>source = ?m, source_pos = 0,
            nesting_stack = replicate 8 JC_NESTING_TYPE_OBJECT,
            nesting_level = -1, expected_token_types = JC_TOKEN_TYPE_VALUE\<rparr>"
  let ?n = "[JC_CHAR_DQUOTE, CHR ''a'', CHR ''b'', CHR ''c'', JC_CHAR_NULL]"
  let ?b = "\<lparr>source = ?n, source_pos = 0,
            nesting_stack = replicate 8 JC_NESTING_TYPE_OBJECT,
            nesting_level = -1, expected_token_types = JC_TOKEN_TYPE_VALUE\<rparr>"
  have wa: "jc_skip_whitespace ?a = Some ?a" by code_simp
  have ca: "source_at ?a (source_pos ?a) = Some JC_CHAR_DQUOTE" by code_simp
  have ea: "jc_is_expected ?a (JC_TOKEN_TYPE_FIELD_NAME OR JC_TOKEN_TYPE_STRING)" by code_simp
  have la: "length (nesting_stack ?a) = nat JC_MAX_NESTING_LEVEL" by code_simp
  have fa: "\<not> jc_is_expected ?a JC_TOKEN_TYPE_FIELD_NAME" by code_simp
  have ga: "jc_get_end_token_type_of_current_nesting ?a = Some JC_NO_TOKENS_EXPECTED"
    by code_simp
  have ja: "source_pos ?a < 5 \<and> 5 < length (source ?a) \<and> source ?a ! 5 = JC_CHAR_DQUOTE
            \<and> escaped_run (take (5 - (source_pos ?a + 1)) (drop (source_pos ?a + 1) (source ?a)))"
    by code_simp
  from jc_string_production [OF wa ca ea la, of "Some zero_token", THEN conjunct1,
      rule_format, OF ja]
  obtain e where
    n: "jc_next_token (Some ?a) (Some zero_token)
        = Some (JC_RESULT_OK,
                Some (?a\<lparr>source_pos := 5 + 1, expected_token_types := e\<rparr>),
                map_option
                  (\<lambda>t. t\<lparr>tok_type :=
                            (if jc_is_expected ?a JC_TOKEN_TYPE_FIELD_NAME
                             then JC_TOKEN_TYPE_FIELD_NAME else JC_TOKEN_TYPE_STRING),
                          tok_start := source_pos ?a + 1, tok_end := 5\<rparr>)
                  (Some zero_token))"
    and e: "if jc_is_expected ?a JC_TOKEN_TYPE_FIELD_NAME then e = JC_TOKEN_TYPE_COLON
            else jc_get_end_token_type_of_current_nesting ?a = Some e"
    by blast
  from e fa ga have "e = JC_NO_TOKENS_EXPECTED" by simp
  with n fa have a: "jc_next_token (Some ?a) (Some zero_token)
           = Some (JC_RESULT_OK,
                   Some (?a\<lparr>source_pos := 6, expected_token_types := JC_NO_TOKENS_EXPECTED\<rparr>),
                   Some (zero_token\<lparr>tok_type := JC_TOKEN_TYPE_STRING,
                                     tok_start := 1, tok_end := 5\<rparr>))"
    by simp
  have wb: "jc_skip_whitespace ?b = Some ?b" by code_simp
  have cb: "source_at ?b (source_pos ?b) = Some JC_CHAR_DQUOTE" by code_simp
  have eb: "jc_is_expected ?b (JC_TOKEN_TYPE_FIELD_NAME OR JC_TOKEN_TYPE_STRING)" by code_simp
  have lb: "length (nesting_stack ?b) = nat JC_MAX_NESTING_LEVEL" by code_simp
  have kb: "\<exists>k. source_pos ?b < k \<and> k < length (source ?b) \<and> source ?b ! k = JC_CHAR_NULL"
    by (intro exI [of _ 4]) simp
  have nb: "\<forall>j. \<not> (source_pos ?b < j \<and> j < length (source ?b)
                     \<and> source ?b ! j = JC_CHAR_DQUOTE
                     \<and> escaped_run (take (j - (source_pos ?b + 1))
                                      (drop (source_pos ?b + 1) (source ?b))))"
  proof (intro allI notI)
    fix j
    assume h: "source_pos ?b < j \<and> j < length (source ?b)
                     \<and> source ?b ! j = JC_CHAR_DQUOTE
                     \<and> escaped_run (take (j - (source_pos ?b + 1))
                                      (drop (source_pos ?b + 1) (source ?b)))"
    then have "j = 1 \<or> j = 2 \<or> j = 3 \<or> j = 4" by auto
    with h show False by (auto simp: jc_consts)
  qed
  from jc_string_production [OF wb cb eb lb, of "Some zero_token", THEN conjunct2,
      rule_format, OF conjI [OF kb nb]]
  have b: "jc_next_token (Some ?b) (Some zero_token)
           = Some (JC_RESULT_ERR_UNEXPECTED_EOF, Some ?b, Some zero_token)" .
  from a b show ?thesis by (simp add: zero_token_def)
qed

section \<open>Numbers\<close>

text \<open>
  \<open>jc_parse_number\<close> tests each character with \<open>strchr\<close>, which finds the null
  character in every string. The run of a number therefore never ends at a null: it
  goes through the terminating null of the source and ends at the first character
  beyond it that is neither null nor in the number charset, or outside the buffer.
\<close>

lemma strchr_null [simp]: "strchr s JC_CHAR_NULL"
  by (induction s) (simp_all add: JC_CHAR_NULL_def)

lemma jc_parse_number_len_stop:
  "jc_parse_number_len mem cur n = Some m
   \<Longrightarrow> n \<le> m \<and> cur + m < length mem
       \<and> \<not> strchr JC_VALID_CHARS_IN_NUMBER (mem ! (cur + m))
       \<and> mem ! (cur + m) \<noteq> JC_CHAR_NULL"
proof (induction mem cur n rule: jc_parse_number_len.induct)
  case (1 mem cur token_len)
  note simps = jc_parse_number_len.simps [of mem cur token_len]
  show ?case
  proof (cases "cur + token_len < length mem")
    case False
    with "1.prems" show ?thesis by (simp add: simps)
  next
    case inb: True
    show ?thesis
    proof (cases "strchr JC_VALID_CHARS_IN_NUMBER (mem ! (cur + token_len))")
      case True
      with inb "1.prems" have "jc_parse_number_len mem cur (token_len + 1) = Some m"
        by (simp add: simps)
      from "1.IH" [OF inb True this] show ?thesis by simp
    next
      case False
      with inb "1.prems" have "m = token_len" by (simp add: simps)
      moreover from False have "mem ! (cur + token_len) \<noteq> JC_CHAR_NULL"
        using strchr_null [of JC_VALID_CHARS_IN_NUMBER] by auto
      ultimately show ?thesis using inb False by simp
    qed
  qed
qed

lemma jc_parse_number_token_end:
  assumes "jc_parse_number st (Some tok) = Some (r, st', Some t)"
  shows "tok_end t < length (source st) \<and> source st ! tok_end t \<noteq> JC_CHAR_NULL
         \<and> tok_end t = source_pos st'"
  using assms jc_parse_number_len_stop [of "source st" "source_pos st" 0]
  by (auto simp: jc_parse_number_def jc_current_source_def jc_make_token_def Let_def
        jc_advance_source_pos_def jc_expect_next_def split: option.splits)

text \<open>
  Claim C1 says that on the source \<open>42\<close> the first call returns the number token of
  offsets 0 to 2 and the second returns \<open>JC_RESULT_EOF\<close>. In the source the run of the
  number does not stop at the terminating null. When the buffer ends with that null, the
  first call reads outside the buffer; when an \<open>x\<close> follows the null, the token ends at
  offset 3, and the second call returns \<open>JC_RESULT_ERR_GARBAGE\<close>.
\<close>

theorem jc_parse_number_42:
  "jc_next_token (jc_start (''42'' @ [JC_CHAR_NULL])) (Some zero_token) = None
   \<and> jc_tokenize 2 (jc_start (''42'' @ [JC_CHAR_NULL] @ ''x'' @ [JC_CHAR_NULL]))
       (Some zero_token)
     = Some [(JC_RESULT_OK,
              Some \<lparr>tok_type = JC_TOKEN_TYPE_NUMBER, tok_start = 0, tok_end = 3\<rparr>),
             (JC_RESULT_ERR_GARBAGE,
              Some \<lparr>tok_type = JC_TOKEN_TYPE_NUMBER, tok_start = 0, tok_end = 3\<rparr>)]"
  by code_simp

section \<open>Token offsets\<close>

text \<open>
  What holds of the offsets of every token returned with \<open>JC_RESULT_OK\<close>: the token
  starts at or after the position before the call, it does not end before it starts,
  the position after the call is at or after its end, and that position is within the
  buffer. So the offsets of successive tokens never decrease. The bound is the buffer,
  not the length of the source string.
\<close>

lemma strncmp_eq_in_bounds:
  assumes "strncmp_eq mem i lit = Some True" and "CHR 0x00 \<notin> set lit"
    and "i \<le> length mem"
  shows "i + length lit \<le> length mem"
  using assms
proof (induction lit arbitrary: i)
  case Nil
  then show ?case by simp
next
  case (Cons l ls)
  from Cons.prems have "i < length mem" and "strncmp_eq mem (i + 1) ls = Some True"
    by (auto split: if_splits)
  with Cons.IH [of "i + 1"] Cons.prems(2) show ?case by simp
qed

lemma parse_literal_offsets:
  assumes "jc_parse_literal st (Some tok) ty lit = Some (JC_RESULT_OK, st', Some t)"
    and "CHR 0x00 \<notin> set lit" and "source_pos st < length (source st)"
  shows "tok_start t = source_pos st \<and> tok_end t = source_pos st'
         \<and> source_pos st \<le> source_pos st' \<and> source_pos st' \<le> length (source st)
         \<and> source st' = source st"
  using assms strncmp_eq_in_bounds [of "source st" "source_pos st" lit]
  by (auto simp: jc_parse_literal_def jc_current_source_def jc_make_token_def Let_def
        jc_advance_source_pos_def jc_expect_next_def split: option.splits bool.splits)

lemma parse_number_offsets:
  assumes "jc_parse_number st (Some tok) = Some (r, st', Some t)"
  shows "tok_start t = source_pos st \<and> tok_end t = source_pos st'
         \<and> source_pos st \<le> source_pos st' \<and> source_pos st' \<le> length (source st)
         \<and> source st' = source st"
  using assms jc_parse_number_len_stop [of "source st" "source_pos st" 0]
  by (auto simp: jc_parse_number_def jc_current_source_def jc_make_token_def Let_def
        jc_advance_source_pos_def jc_expect_next_def split: option.splits)

lemma parse_string_offsets:
  assumes "jc_parse_string_or_field_name st (Some tok) = Some (JC_RESULT_OK, st', Some t)"
  shows "tok_start t = source_pos st + 1 \<and> tok_end t + 1 = source_pos st'
         \<and> tok_start t \<le> tok_end t \<and> source_pos st' \<le> length (source st)
         \<and> source st' = source st"
proof -
  from assms obtain j where
    j: "jc_search_dquote (source st) (source_pos st + 1) = Some (Some j)"
    by (auto simp: jc_parse_string_or_field_name_def jc_current_source_def
          split: option.splits)
  then have b: "source_pos st + 1 \<le> j" "j < length (source st)"
    by (simp_all add: jc_search_dquote_found)
  with assms j show ?thesis
    by (auto simp: jc_parse_string_or_field_name_def jc_current_source_def jc_make_token_def
          Let_def jc_advance_source_pos_def jc_expect_next_def
          split: option.splits if_splits)
qed

lemma produce_offsets:
  assumes "jc_produce st (Some tok) c p = Some (JC_RESULT_OK, st', Some t)"
    and "source_pos st < length (source st)"
  shows "source_pos st \<le> tok_start t \<and> tok_start t \<le> tok_end t
         \<and> tok_end t \<le> source_pos st' \<and> source_pos st' \<le> length (source st)
         \<and> source st' = source st"
proof (cases p)
  case ObjectStart
  with assms show ?thesis
    by (auto simp: jc_start_production_def jc_nest_def Let_def jc_make_token_def
          jc_advance_source_pos_def jc_expect_next_def split: option.splits if_splits)
next
  case ArrayStart
  with assms show ?thesis
    by (auto simp: jc_start_production_def jc_nest_def Let_def jc_make_token_def
          jc_advance_source_pos_def jc_expect_next_def split: option.splits if_splits)
next
  case ObjectEnd
  with assms show ?thesis
    by (auto simp: jc_end_production_def jc_unnest_def jc_make_token_def
          jc_advance_source_pos_def jc_expect_next_def split: option.splits if_splits)
next
  case ArrayEnd
  with assms show ?thesis
    by (auto simp: jc_end_production_def jc_unnest_def jc_make_token_def
          jc_advance_source_pos_def jc_expect_next_def split: option.splits if_splits)
next
  case Colon
  with assms show ?thesis
    by (auto simp: jc_make_token_def jc_advance_source_pos_def jc_expect_next_def)
next
  case Comma
  with assms show ?thesis
    by (auto simp: jc_make_token_def jc_advance_source_pos_def jc_expect_next_def
          split: option.splits)
next
  case StringOrFieldName
  with assms parse_string_offsets [of st tok st' t] show ?thesis by simp
next
  case Number
  with assms parse_number_offsets [of st tok JC_RESULT_OK st' t] show ?thesis by simp
next
  case LitTrue
  with assms parse_literal_offsets [of st tok JC_TOKEN_TYPE_TRUE JC_LIT_TRUE st' t]
  show ?thesis by (simp add: jc_consts)
next
  case LitFalse
  with assms parse_literal_offsets [of st tok JC_TOKEN_TYPE_FALSE JC_LIT_FALSE st' t]
  show ?thesis by (simp add: jc_consts)
next
  case LitNull
  with assms parse_literal_offsets [of st tok JC_TOKEN_TYPE_NULL JC_LIT_NULL st' t]
  show ?thesis by (simp add: jc_consts)
qed (use assms in \<open>auto split: if_splits\<close>)

lemma jc_next_token_offsets:
  assumes "jc_next_token (Some st) (Some tok) = Some (JC_RESULT_OK, Some st', Some t)"
  shows "source_pos st \<le> tok_start t \<and> tok_start t \<le> tok_end t
         \<and> tok_end t \<le> source_pos st' \<and> source_pos st' \<le> length (source st)
         \<and> source st' = source st"
proof -
  from assms obtain st1 c where ws: "jc_skip_whitespace st = Some st1"
    and c: "source_at st1 (source_pos st1) = Some c"
    by (auto simp: jc_next_token_def split: option.splits)
  from assms have p: "jc_produce st1 (Some tok) c (jc_select st1 c)
                      = Some (JC_RESULT_OK, st', Some t)"
    by (auto simp: jc_next_token_produce [OF ws c])
  from c have "source_pos st1 < length (source st1)"
    by (simp add: source_at_def split: if_splits)
  from produce_offsets [OF p this] jc_skip_whitespace_Some [OF ws] show ?thesis by auto
qed

text \<open>
  Claim C2 says that every token returned with \<open>JC_RESULT_OK\<close> ends within the source.
  For the source \<open>1\<close>, of length 1, in a buffer where \<open>]\<close> follows the terminating
  null, the call returns the number token of offsets 0 to 2.
\<close>

theorem jc_number_token_past_source:
  "source_length (''1'' @ [JC_CHAR_NULL] @ '']'' @ [JC_CHAR_NULL]) = 1
   \<and> jc_next_token (jc_start (''1'' @ [JC_CHAR_NULL] @ '']'' @ [JC_CHAR_NULL]))
       (Some zero_token)
     = Some (JC_RESULT_OK,
             Some \<lparr>source = ''1'' @ [JC_CHAR_NULL] @ '']'' @ [JC_CHAR_NULL], source_pos = 2,
                   nesting_stack = replicate 8 JC_NESTING_TYPE_OBJECT, nesting_level = -1,
                   expected_token_types = JC_NO_TOKENS_EXPECTED\<rparr>,
             Some \<lparr>tok_type = JC_TOKEN_TYPE_NUMBER, tok_start = 0, tok_end = 2\<rparr>)"
  by code_simp

section \<open>The nesting depth of the input\<close>


















lemma jc_tokenize_nested_examples:
  "map_option (map fst)
     (jc_tokenize 22 (jc_start (''[[1],[[[[[[[2]]]]]]]]'' @ [JC_CHAR_NULL])) (Some zero_token))
   = Some (replicate 21 JC_RESULT_OK @ [JC_RESULT_EOF])"
  "map_option (map fst)
     (jc_tokenize 22 (jc_start (''[[1],[[[[[[[[2]]]]]]]]]'' @ [JC_CHAR_NULL]))
        (Some zero_token))
   = Some (replicate 12 JC_RESULT_OK @ [JC_RESULT_ERR_MAX_NESTING_REACHED])"
  by code_simp+




end
